theory Spec2Isabelle
  imports Complex_Main
begin

section \<open>The WDSP wrapper: data model\<close>

text \<open>
  \<^verbatim>\<open>WDSPWrapper.c\<close> is the glue between a caller's mono \<^verbatim>\<open>float\<close> buffers and the two
  WDSP noise reducers (EMNR, spectral; ANR, adaptive LMS). The engines themselves
  (\<^verbatim>\<open>create_emnr\<close>, \<^verbatim>\<open>xemnr\<close>, \<^verbatim>\<open>destroy_emnr\<close> and the three ANR functions) are external:
  every definition below takes them as parameters, so every theorem holds for any engine.

  C values are modelled as follows.
  \<^item> \<^verbatim>\<open>int\<close> is \<^typ>\<open>int\<close>. No arithmetic of the wrapper can overflow: \<^verbatim>\<open>offset\<close> stays in
    \<open>[0, frameCount]\<close>, \<^verbatim>\<open>chunk\<close> in \<open>[1, bufSize]\<close>, and \<^verbatim>\<open>2 * i + 1\<close> is below \<open>2 * bufSize\<close>.
  \<^item> \<^verbatim>\<open>float\<close> and \<^verbatim>\<open>double\<close> are the type variables \<open>'f\<close> and \<open>'d\<close>; the two casts
    \<^verbatim>\<open>(double)\<close> and \<^verbatim>\<open>(float)\<close> are the parameters \<open>f2d\<close> and \<open>d2f\<close>, and \<^verbatim>\<open>0.0\<close> is \<open>0\<close>.
    The \<^verbatim>\<open>double\<close> literals handed to the engine constructors are written as reals.
  \<^item> A pointer returned by \<^verbatim>\<open>calloc\<close> is an address (a block number); a nullable pointer is
    an \<open>option\<close>, \<open>None\<close> being \<^verbatim>\<open>NULL\<close>.
\<close>

type_synonym addr = nat

text \<open>
  \<^verbatim>\<open>struct WDSP_EMNR\<close> and \<^verbatim>\<open>struct WDSP_ANR\<close>. The field \<open>workBuf\<close> holds the contents of the
  array the C pointer designates, \<open>workBuf_p\<close> the pointer itself, and \<open>self\<close> the address of
  the struct (the value of the handle \<^verbatim>\<open>ctx\<close>). \<open>impl\<close> is the state of the engine object.
\<close>

record ('e, 'd) WDSP_EMNR =
  self :: addr
  impl :: 'e
  workBuf_p :: addr
  workBuf :: "'d list"
  bufSize :: int

record ('e, 'd) WDSP_ANR =
  self :: addr
  impl :: 'e
  workBuf_p :: addr
  workBuf :: "'d list"
  bufSize :: int

text \<open>
  What a call can do instead of returning normally: an access outside the caller's buffer
  (undefined behaviour in C) is the error value; a loop that never ends is \<open>None\<close>
  of the enclosing \<open>option\<close>.
\<close>

datatype error = BufferOverrun

section \<open>The environment: allocator and engine library\<close>

text \<open>
  The state outside the wrapper: the blocks \<^verbatim>\<open>calloc\<close> has handed out and not yet seen
  freed (with their element counts), the next unused address, the outcomes of the coming
  allocation requests (\<open>True\<close>: the request is refused and \<^verbatim>\<open>calloc\<close> returns \<^verbatim>\<open>NULL\<close>;
  an exhausted script grants every request), and the private state of the engine library.

  \<open>calloc n\<close> is \<^verbatim>\<open>calloc(n, size)\<close>: it records the element count, not the element size;
  the zeroed contents of the block are written where the block is used. \<open>free\<close> takes a
  block off the list; the wrapper only frees what it allocated, once. \<open>heap_ok\<close> says
  that the addresses \<^verbatim>\<open>calloc\<close> will hand out next are not in use.
\<close>

record 'w world =
  blocks :: "addr \<rightharpoonup> nat"
  fresh :: addr
  refusals :: "bool list"
  engines :: 'w

definition calloc :: "nat \<Rightarrow> 'w world \<Rightarrow> addr option \<times> 'w world" where
  "calloc n w =
     (case refusals w of
        True # rest \<Rightarrow> (None, w\<lparr>refusals := rest\<rparr>)
      | _ \<Rightarrow> (Some (fresh w),
               w\<lparr>blocks := (blocks w)(fresh w \<mapsto> n), fresh := Suc (fresh w),
                 refusals := tl (refusals w)\<rparr>))"

definition free :: "addr \<Rightarrow> 'w world \<Rightarrow> 'w world" where
  "free p w = w\<lparr>blocks := (blocks w)(p := None)\<rparr>"

definition heap_ok :: "'w world \<Rightarrow> bool" where
  "heap_ok w = (\<forall>a \<in> dom (blocks w). a < fresh w)"

text \<open>Modelled from the spec: the macro \<^verbatim>\<open>ANR_DLINE_SIZE\<close> of \<^verbatim>\<open>anr.h\<close>, which is not among
  the sources; the spec gives the delay-line length 2048, as does the comment at its use.\<close>

definition ANR_DLINE_SIZE :: int where
  "ANR_DLINE_SIZE = 2048"

text \<open>
  An engine's block operation (\<^verbatim>\<open>xemnr\<close>, \<^verbatim>\<open>xanr\<close>) reads and writes the scratch array through
  the pointers it was constructed with: it maps its state and the array to a new state and
  the new contents of the array. Wrapping an engine in \<open>recording\<close> keeps, next to the
  engine's own state, the list of its invocations, oldest first, each as the array on
  entry and on exit; what the wrapper computes is the same. \<open>in_place\<close> says what holds
  of any engine in C, where the array is a fixed block of memory: the call leaves the array
  at its size.
\<close>

type_synonym ('e, 'd) engine = "'e \<Rightarrow> 'd list \<Rightarrow> 'e \<times> 'd list"

definition recording ::
  "('e, 'd) engine \<Rightarrow> ('e \<times> ('d list \<times> 'd list) list, 'd) engine" where
  "recording x = (\<lambda>(e, hist) wb. case x e wb of (e', wb') \<Rightarrow> ((e', hist @ [(wb, wb')]), wb'))"

definition in_place :: "('e, 'd) engine \<Rightarrow> bool" where
  "in_place x = (\<forall>e wb. length (snd (x e wb)) = length wb)"

section \<open>The three inner loops\<close>

text \<open>
  The \<^verbatim>\<open>for\<close> loops of \<^verbatim>\<open>wdsp_emnr_process\<close>, repeated word for word in
  \<^verbatim>\<open>wdsp_anr_process\<close>: packing the chunk into the complex array, zero-padding the
  remainder, and extracting the real components. The argument \<open>i\<close> is the loop variable,
  which starts at \<open>0\<close> or at \<open>chunk\<close> and is never negative, so \<open>nat\<close> of an index is
  the index. The scratch array is indexed below \<open>2 * bufSize\<close> only, the size the
  constructors give it (\<open>packed_chunk\<close> below: with that size every slot is written).
\<close>

function pack_iq :: "('f \<Rightarrow> 'd) \<Rightarrow> 'f list \<Rightarrow> int \<Rightarrow> int \<Rightarrow> int \<Rightarrow> ('d::zero) list \<Rightarrow> 'd list" where
  "pack_iq f2d inOut offset chunk i wb =
     (if i < chunk then
        pack_iq f2d inOut offset chunk (i + 1)
          (wb[nat (2 * i + 0) := f2d (inOut ! nat (offset + i)), nat (2 * i + 1) := 0])
      else wb)"
  by pat_completeness auto
termination
  by (relation "measure (\<lambda>(f2d, inOut, offset, chunk, i, wb). nat (chunk - i))") auto

function zero_pad :: "int \<Rightarrow> int \<Rightarrow> ('d::zero) list \<Rightarrow> 'd list" where
  "zero_pad bsz i wb =
     (if i < bsz then zero_pad bsz (i + 1) (wb[nat (2 * i + 0) := 0, nat (2 * i + 1) := 0])
      else wb)"
  by pat_completeness auto
termination
  by (relation "measure (\<lambda>(bsz, i, wb). nat (bsz - i))") auto

function extract_real :: "('d \<Rightarrow> 'f) \<Rightarrow> 'd list \<Rightarrow> int \<Rightarrow> int \<Rightarrow> int \<Rightarrow> 'f list \<Rightarrow> 'f list" where
  "extract_real d2f wb offset chunk i inOut =
     (if i < chunk then
        extract_real d2f wb offset chunk (i + 1)
          (inOut[nat (offset + i) := d2f (wb ! nat (2 * i + 0))])
      else inOut)"
  by pat_completeness auto
termination
  by (relation "measure (\<lambda>(d2f, wb, offset, chunk, i, inOut). nat (chunk - i))") auto

declare pack_iq.simps [simp del] zero_pad.simps [simp del] extract_real.simps [simp del]

section \<open>EMNR\<close>

definition wdsp_emnr_create ::
  "(int \<Rightarrow> int \<Rightarrow> int \<Rightarrow> addr \<Rightarrow> addr \<Rightarrow> int \<Rightarrow> int \<Rightarrow> int \<Rightarrow> int \<Rightarrow> real \<Rightarrow> int \<Rightarrow> int \<Rightarrow> int
      \<Rightarrow> 'w \<Rightarrow> 'e option \<times> 'w)
   \<Rightarrow> int \<Rightarrow> 'w world \<Rightarrow> ('e, 'd::zero) WDSP_EMNR option \<times> 'w world" where
  "wdsp_emnr_create create_emnr sampleRate w =
     (case calloc 1 w of
        (None, w) \<Rightarrow> (None, w)
      | (Some ctx, w) \<Rightarrow>
          let fsize = 1920; ovrlp = 4; bsize = fsize div ovrlp in
          (case calloc (nat (2 * bsize)) w of
             (None, w) \<Rightarrow> (None, free ctx w)
           | (Some wb, w) \<Rightarrow>
               (case create_emnr 1 0 bsize wb wb fsize ovrlp sampleRate 0 1.0 2 0 1 (engines w) of
                  (None, ew) \<Rightarrow> (None, free ctx (free wb (w\<lparr>engines := ew\<rparr>)))
                | (Some e, ew) \<Rightarrow>
                    (Some \<lparr>WDSP_EMNR.self = ctx, WDSP_EMNR.impl = e, WDSP_EMNR.workBuf_p = wb,
                           WDSP_EMNR.workBuf = replicate (nat (2 * bsize)) 0,
                           WDSP_EMNR.bufSize = bsize\<rparr>,
                     w\<lparr>engines := ew\<rparr>))))"

text \<open>
  The \<^verbatim>\<open>while\<close> loop of \<^verbatim>\<open>wdsp_emnr_process\<close>, with \<open>offset\<close> as its variable. A chunk
  of positive size reads and writes \<^verbatim>\<open>inOut[offset .. offset + chunk - 1]\<close>; where that
  leaves the caller's buffer the run ends in \<open>BufferOverrun\<close>. With a block size that is
  not positive the loop would not advance; the function is partial, and that it returns is
  proved below for the handles the constructors make.
\<close>

partial_function (option) emnr_loop ::
  "('e, 'd::zero) engine \<Rightarrow> ('f \<Rightarrow> 'd) \<Rightarrow> ('d \<Rightarrow> 'f) \<Rightarrow> ('e, 'd) WDSP_EMNR \<Rightarrow> 'f list \<Rightarrow> int \<Rightarrow> int
   \<Rightarrow> (error + ('e, 'd) WDSP_EMNR \<times> 'f list) option" where
  "emnr_loop xemnr f2d d2f ctx inOut frameCount offset =
     (if offset < frameCount then
        let chunk = frameCount - offset;
            chunk = (if chunk > WDSP_EMNR.bufSize ctx then WDSP_EMNR.bufSize ctx else chunk)
        in if 0 < chunk \<and> int (length inOut) < offset + chunk then Some (Inl BufferOverrun)
           else
             let wb = pack_iq f2d inOut offset chunk 0 (WDSP_EMNR.workBuf ctx);
                 wb = zero_pad (WDSP_EMNR.bufSize ctx) chunk wb;
                 (e, wb) = xemnr (WDSP_EMNR.impl ctx) wb;
                 inOut = extract_real d2f wb offset chunk 0 inOut
             in emnr_loop xemnr f2d d2f (ctx\<lparr>WDSP_EMNR.impl := e, WDSP_EMNR.workBuf := wb\<rparr>)
                  inOut frameCount (offset + chunk)
      else Some (Inr (ctx, inOut)))"

declare emnr_loop.simps [code]

definition wdsp_emnr_process ::
  "('e, 'd::zero) engine \<Rightarrow> ('f \<Rightarrow> 'd) \<Rightarrow> ('d \<Rightarrow> 'f) \<Rightarrow> ('e, 'd) WDSP_EMNR \<Rightarrow> 'f list \<Rightarrow> int
   \<Rightarrow> (error + ('e, 'd) WDSP_EMNR \<times> 'f list) option" where
  "wdsp_emnr_process xemnr f2d d2f ctx inOut frameCount =
     emnr_loop xemnr f2d d2f ctx inOut frameCount 0"

definition wdsp_emnr_destroy ::
  "('e \<Rightarrow> 'w \<Rightarrow> 'w) \<Rightarrow> ('e, 'd) WDSP_EMNR option \<Rightarrow> 'w world \<Rightarrow> 'w world" where
  "wdsp_emnr_destroy destroy_emnr ctx w =
     (case ctx of
        None \<Rightarrow> w
      | Some c \<Rightarrow>
          free (WDSP_EMNR.self c)
            (free (WDSP_EMNR.workBuf_p c)
               (w\<lparr>engines := destroy_emnr (WDSP_EMNR.impl c) (engines w)\<rparr>)))"

section \<open>ANR\<close>

definition wdsp_anr_create ::
  "(int \<Rightarrow> int \<Rightarrow> int \<Rightarrow> addr \<Rightarrow> addr \<Rightarrow> int \<Rightarrow> int \<Rightarrow> int
      \<Rightarrow> real \<Rightarrow> real \<Rightarrow> real \<Rightarrow> real \<Rightarrow> real \<Rightarrow> real \<Rightarrow> real \<Rightarrow> real \<Rightarrow> real
      \<Rightarrow> 'w \<Rightarrow> 'e option \<times> 'w)
   \<Rightarrow> int \<Rightarrow> 'w world \<Rightarrow> ('e, 'd::zero) WDSP_ANR option \<times> 'w world" where
  "wdsp_anr_create create_anr sampleRate w =
     (case calloc 1 w of
        (None, w) \<Rightarrow> (None, w)
      | (Some ctx, w) \<Rightarrow>
          let bsize = 480 in
          (case calloc (nat (2 * bsize)) w of
             (None, w) \<Rightarrow> (None, free ctx w)
           | (Some wb, w) \<Rightarrow>
               (case create_anr 1 0 bsize wb wb ANR_DLINE_SIZE 64 16
                       0.0001 0.1 120.0 120.0 200.0 0.001 (6.25 / 10 ^ 10) 1.0 3.0 (engines w) of
                  (None, ew) \<Rightarrow> (None, free ctx (free wb (w\<lparr>engines := ew\<rparr>)))
                | (Some e, ew) \<Rightarrow>
                    (Some \<lparr>WDSP_ANR.self = ctx, WDSP_ANR.impl = e, WDSP_ANR.workBuf_p = wb,
                           WDSP_ANR.workBuf = replicate (nat (2 * bsize)) 0,
                           WDSP_ANR.bufSize = bsize\<rparr>,
                     w\<lparr>engines := ew\<rparr>))))"

partial_function (option) anr_loop ::
  "('e, 'd::zero) engine \<Rightarrow> ('f \<Rightarrow> 'd) \<Rightarrow> ('d \<Rightarrow> 'f) \<Rightarrow> ('e, 'd) WDSP_ANR \<Rightarrow> 'f list \<Rightarrow> int \<Rightarrow> int
   \<Rightarrow> (error + ('e, 'd) WDSP_ANR \<times> 'f list) option" where
  "anr_loop xanr f2d d2f ctx inOut frameCount offset =
     (if offset < frameCount then
        let chunk = frameCount - offset;
            chunk = (if chunk > WDSP_ANR.bufSize ctx then WDSP_ANR.bufSize ctx else chunk)
        in if 0 < chunk \<and> int (length inOut) < offset + chunk then Some (Inl BufferOverrun)
           else
             let wb = pack_iq f2d inOut offset chunk 0 (WDSP_ANR.workBuf ctx);
                 wb = zero_pad (WDSP_ANR.bufSize ctx) chunk wb;
                 (e, wb) = xanr (WDSP_ANR.impl ctx) wb;
                 inOut = extract_real d2f wb offset chunk 0 inOut
             in anr_loop xanr f2d d2f (ctx\<lparr>WDSP_ANR.impl := e, WDSP_ANR.workBuf := wb\<rparr>)
                  inOut frameCount (offset + chunk)
      else Some (Inr (ctx, inOut)))"

declare anr_loop.simps [code]

definition wdsp_anr_process ::
  "('e, 'd::zero) engine \<Rightarrow> ('f \<Rightarrow> 'd) \<Rightarrow> ('d \<Rightarrow> 'f) \<Rightarrow> ('e, 'd) WDSP_ANR \<Rightarrow> 'f list \<Rightarrow> int
   \<Rightarrow> (error + ('e, 'd) WDSP_ANR \<times> 'f list) option" where
  "wdsp_anr_process xanr f2d d2f ctx inOut frameCount =
     anr_loop xanr f2d d2f ctx inOut frameCount 0"

definition wdsp_anr_destroy ::
  "('e \<Rightarrow> 'w \<Rightarrow> 'w) \<Rightarrow> ('e, 'd) WDSP_ANR option \<Rightarrow> 'w world \<Rightarrow> 'w world" where
  "wdsp_anr_destroy destroy_anr ctx w =
     (case ctx of
        None \<Rightarrow> w
      | Some c \<Rightarrow>
          free (WDSP_ANR.self c)
            (free (WDSP_ANR.workBuf_p c)
               (w\<lparr>engines := destroy_anr (WDSP_ANR.impl c) (engines w)\<rparr>)))"

section \<open>Vocabulary of the statements\<close>

text \<open>
  The two structs have the same fields; \<open>as_emnr\<close> and \<open>as_anr\<close> copy one into the other,
  so that a fact proved of one loop carries over to its twin.
\<close>

definition as_emnr :: "('e, 'd) WDSP_ANR \<Rightarrow> ('e, 'd) WDSP_EMNR" where
  "as_emnr c = \<lparr>WDSP_EMNR.self = WDSP_ANR.self c, WDSP_EMNR.impl = WDSP_ANR.impl c,
                WDSP_EMNR.workBuf_p = WDSP_ANR.workBuf_p c, WDSP_EMNR.workBuf = WDSP_ANR.workBuf c,
                WDSP_EMNR.bufSize = WDSP_ANR.bufSize c\<rparr>"

definition as_anr :: "('e, 'd) WDSP_EMNR \<Rightarrow> ('e, 'd) WDSP_ANR" where
  "as_anr c = \<lparr>WDSP_ANR.self = WDSP_EMNR.self c, WDSP_ANR.impl = WDSP_EMNR.impl c,
               WDSP_ANR.workBuf_p = WDSP_EMNR.workBuf_p c, WDSP_ANR.workBuf = WDSP_EMNR.workBuf c,
               WDSP_ANR.bufSize = WDSP_EMNR.bufSize c\<rparr>"

text \<open>
  \<open>emnr_plain\<close> and \<open>anr_plain\<close> drop the list of invocations from the handle of a
  recording engine, leaving the handle of the engine it wraps.
\<close>

definition emnr_plain :: "('e \<times> 'h, 'd) WDSP_EMNR \<Rightarrow> ('e, 'd) WDSP_EMNR" where
  "emnr_plain c = \<lparr>WDSP_EMNR.self = WDSP_EMNR.self c, WDSP_EMNR.impl = fst (WDSP_EMNR.impl c),
                   WDSP_EMNR.workBuf_p = WDSP_EMNR.workBuf_p c,
                   WDSP_EMNR.workBuf = WDSP_EMNR.workBuf c,
                   WDSP_EMNR.bufSize = WDSP_EMNR.bufSize c\<rparr>"

definition anr_plain :: "('e \<times> 'h, 'd) WDSP_ANR \<Rightarrow> ('e, 'd) WDSP_ANR" where
  "anr_plain c = \<lparr>WDSP_ANR.self = WDSP_ANR.self c, WDSP_ANR.impl = fst (WDSP_ANR.impl c),
                  WDSP_ANR.workBuf_p = WDSP_ANR.workBuf_p c,
                  WDSP_ANR.workBuf = WDSP_ANR.workBuf c,
                  WDSP_ANR.bufSize = WDSP_ANR.bufSize c\<rparr>"

text \<open>
  A handle in the state the constructors leave it in, and every later \<^verbatim>\<open>process\<close> call keeps
  it in: block size 480 and a scratch array of 960 doubles.
\<close>

definition emnr_ready :: "('e, 'd) WDSP_EMNR \<Rightarrow> bool" where
  "emnr_ready c \<longleftrightarrow> WDSP_EMNR.bufSize c = 480 \<and> length (WDSP_EMNR.workBuf c) = 960"

definition anr_ready :: "('e, 'd) WDSP_ANR \<Rightarrow> bool" where
  "anr_ready c \<longleftrightarrow> WDSP_ANR.bufSize c = 480 \<and> length (WDSP_ANR.workBuf c) = 960"

text \<open>
  \<open>holds_chunk\<close>: the scratch array \<open>wb\<close> of \<open>bsz\<close> pairs holds the \<open>chunk\<close> samples of
  \<open>inOut\<close> from \<open>offset\<close> on in its first real slots, zero in the remaining real slots and
  zero in every imaginary slot. \<open>written_back\<close>: the first \<open>chunk\<close> real slots of \<open>wb\<close> are
  what \<open>out\<close> holds from \<open>offset\<close> on. \<open>unchanged_outside\<close>: \<open>out\<close> is \<open>inOut\<close> except
  possibly at the positions \<open>lo \<le> j < hi\<close>.
\<close>

definition holds_chunk :: "('f \<Rightarrow> 'd::zero) \<Rightarrow> int \<Rightarrow> 'f list \<Rightarrow> int \<Rightarrow> int \<Rightarrow> 'd list \<Rightarrow> bool" where
  "holds_chunk f2d bsz inOut offset chunk wb \<longleftrightarrow>
     length wb = nat (2 * bsz) \<and>
     (\<forall>i \<in> {0..<nat bsz}.
        wb ! (2 * i) = (if int i < chunk then f2d (inOut ! nat (offset + int i)) else 0) \<and>
        wb ! (2 * i + 1) = 0)"

definition written_back :: "('d \<Rightarrow> 'f) \<Rightarrow> 'f list \<Rightarrow> int \<Rightarrow> int \<Rightarrow> 'd list \<Rightarrow> bool" where
  "written_back d2f out offset chunk wb \<longleftrightarrow>
     (\<forall>i \<in> {0..<nat chunk}. out ! nat (offset + int i) = d2f (wb ! (2 * i)))"

definition unchanged_outside :: "'f list \<Rightarrow> 'f list \<Rightarrow> int \<Rightarrow> int \<Rightarrow> bool" where
  "unchanged_outside inOut out lo hi \<longleftrightarrow>
     length out = length inOut \<and>
     (\<forall>j \<in> {0..<length inOut}. int j < lo \<or> hi \<le> int j \<longrightarrow> out ! j = inOut ! j)"

text \<open>
  A caller's session on one handle: the \<^verbatim>\<open>process\<close> calls of \<open>calls\<close> (buffer and frame
  count) in order, each on the handle as the call before left it; the result lists what each
  call left in the caller's buffer, and ends with the first call that does not return normally.
\<close>

fun emnr_run ::
  "('e, 'd::zero) engine \<Rightarrow> ('f \<Rightarrow> 'd) \<Rightarrow> ('d \<Rightarrow> 'f) \<Rightarrow> ('e, 'd) WDSP_EMNR \<Rightarrow> ('f list \<times> int) list
   \<Rightarrow> (error + 'f list) option list" where
  "emnr_run xemnr f2d d2f ctx [] = []"
| "emnr_run xemnr f2d d2f ctx ((inOut, frameCount) # calls) =
     (case wdsp_emnr_process xemnr f2d d2f ctx inOut frameCount of
        None \<Rightarrow> [None]
      | Some (Inl err) \<Rightarrow> [Some (Inl err)]
      | Some (Inr (ctx', out)) \<Rightarrow> Some (Inr out) # emnr_run xemnr f2d d2f ctx' calls)"

fun anr_run ::
  "('e, 'd::zero) engine \<Rightarrow> ('f \<Rightarrow> 'd) \<Rightarrow> ('d \<Rightarrow> 'f) \<Rightarrow> ('e, 'd) WDSP_ANR \<Rightarrow> ('f list \<times> int) list
   \<Rightarrow> (error + 'f list) option list" where
  "anr_run xanr f2d d2f ctx [] = []"
| "anr_run xanr f2d d2f ctx ((inOut, frameCount) # calls) =
     (case wdsp_anr_process xanr f2d d2f ctx inOut frameCount of
        None \<Rightarrow> [None]
      | Some (Inl err) \<Rightarrow> [Some (Inl err)]
      | Some (Inr (ctx', out)) \<Rightarrow> Some (Inr out) # anr_run xanr f2d d2f ctx' calls)"

text \<open>
  The adaptive variant from construction on: the handle \<^verbatim>\<open>wdsp_anr_create\<close> returns for a
  sample rate, then the session on it; \<open>None\<close> when no handle is produced.
\<close>

definition anr_session ::
  "(int \<Rightarrow> int \<Rightarrow> int \<Rightarrow> addr \<Rightarrow> addr \<Rightarrow> int \<Rightarrow> int \<Rightarrow> int
      \<Rightarrow> real \<Rightarrow> real \<Rightarrow> real \<Rightarrow> real \<Rightarrow> real \<Rightarrow> real \<Rightarrow> real \<Rightarrow> real \<Rightarrow> real
      \<Rightarrow> 'w \<Rightarrow> 'e option \<times> 'w)
   \<Rightarrow> ('e, 'd::zero) engine \<Rightarrow> ('f \<Rightarrow> 'd) \<Rightarrow> ('d \<Rightarrow> 'f) \<Rightarrow> int \<Rightarrow> 'w world \<Rightarrow> ('f list \<times> int) list
   \<Rightarrow> (error + 'f list) option list option" where
  "anr_session create_anr xanr f2d d2f sampleRate w calls =
     (case wdsp_anr_create create_anr sampleRate w of
        (None, w') \<Rightarrow> None
      | (Some ctx, w') \<Rightarrow> Some (anr_run xanr f2d d2f ctx calls))"

text \<open>
  What it means for an engine constructor to be deterministic: the engine state a successful
  \<^verbatim>\<open>create_emnr\<close> (\<^verbatim>\<open>create_anr\<close>) returns is fixed by its numeric arguments. Two successful
  calls with the same numeric arguments return the same engine state, at whatever addresses
  their buffers lie and in whatever state the engine library is. (In C the engine keeps the
  two buffer pointers; the engine state of the model is what the block operation computes
  from, and the predicate says that the constructor puts no trace of the addresses or of the
  library's state there.)
\<close>

definition emnr_constructor_deterministic ::
  "(int \<Rightarrow> int \<Rightarrow> int \<Rightarrow> addr \<Rightarrow> addr \<Rightarrow> int \<Rightarrow> int \<Rightarrow> int \<Rightarrow> int \<Rightarrow> real \<Rightarrow> int \<Rightarrow> int \<Rightarrow> int
      \<Rightarrow> 'w \<Rightarrow> 'e option \<times> 'w) \<Rightarrow> bool" where
  "emnr_constructor_deterministic create_emnr \<longleftrightarrow>
     (\<forall>run position size fsize ovrlp rate wintype gain gain_method npe_method ae_run
        inb outb ew inb' outb' ew' e e'.
        fst (create_emnr run position size inb outb fsize ovrlp rate wintype gain gain_method
               npe_method ae_run ew) = Some e \<longrightarrow>
        fst (create_emnr run position size inb' outb' fsize ovrlp rate wintype gain gain_method
               npe_method ae_run ew') = Some e' \<longrightarrow>
        e = e')"

definition anr_constructor_deterministic ::
  "(int \<Rightarrow> int \<Rightarrow> int \<Rightarrow> addr \<Rightarrow> addr \<Rightarrow> int \<Rightarrow> int \<Rightarrow> int
      \<Rightarrow> real \<Rightarrow> real \<Rightarrow> real \<Rightarrow> real \<Rightarrow> real \<Rightarrow> real \<Rightarrow> real \<Rightarrow> real \<Rightarrow> real
      \<Rightarrow> 'w \<Rightarrow> 'e option \<times> 'w) \<Rightarrow> bool" where
  "anr_constructor_deterministic create_anr \<longleftrightarrow>
     (\<forall>run position buff_size dline_size n_taps delay two_mu gamma lidx lidx_min lidx_max
        ngamma den_mult lincr ldecr inb outb ew inb' outb' ew' e e'.
        fst (create_anr run position buff_size inb outb dline_size n_taps delay two_mu gamma
               lidx lidx_min lidx_max ngamma den_mult lincr ldecr ew) = Some e \<longrightarrow>
        fst (create_anr run position buff_size inb' outb' dline_size n_taps delay two_mu gamma
               lidx lidx_min lidx_max ngamma den_mult lincr ldecr ew') = Some e' \<longrightarrow>
        e = e')"

section \<open>The inner loops, slot by slot\<close>

lemma pack_iq_length [simp]: "length (pack_iq f2d inOut offset chunk i wb) = length wb"
  by (induction f2d inOut offset chunk i wb rule: pack_iq.induct)
     (subst pack_iq.simps, simp)

lemma zero_pad_length [simp]: "length (zero_pad bsz i wb) = length wb"
  by (induction bsz i wb rule: zero_pad.induct) (subst zero_pad.simps, simp)

lemma extract_real_length [simp]:
  "length (extract_real d2f wb offset chunk i inOut) = length inOut"
  by (induction d2f wb offset chunk i inOut rule: extract_real.induct)
     (subst extract_real.simps, simp)

lemma pair_update_nth:
  assumes "0 \<le> i" "k < length wb"
  shows "wb[nat (2 * i + 0) := a, nat (2 * i + 1) := b] ! k =
         (if int k = 2 * i then a else if int k = 2 * i + 1 then b else wb ! k)"
proof -
  have "nat (2 * i + 0) = k \<longleftrightarrow> int k = 2 * i" "nat (2 * i + 1) = k \<longleftrightarrow> int k = 2 * i + 1"
    using assms by linarith+
  then show ?thesis using assms by (simp add: nth_list_update)
qed

lemma pack_iq_nth:
  "0 \<le> i \<Longrightarrow> k < length wb \<Longrightarrow>
   pack_iq f2d inOut offset chunk i wb ! k =
     (if 2 * i \<le> int k \<and> int k < 2 * chunk
      then (if even k then f2d (inOut ! nat (offset + int k div 2)) else 0)
      else wb ! k)"
proof (induction f2d inOut offset chunk i wb rule: pack_iq.induct)
  case (1 f2d inOut offset chunk i wb)
  show ?case
  proof (cases "i < chunk")
    case False
    then show ?thesis by (subst pack_iq.simps) auto
  next
    case True
    let ?wb = "wb[nat (2 * i + 0) := f2d (inOut ! nat (offset + i)), nat (2 * i + 1) := 0]"
    have ih: "pack_iq f2d inOut offset chunk (i + 1) ?wb ! k =
      (if 2 * (i + 1) \<le> int k \<and> int k < 2 * chunk
       then (if even k then f2d (inOut ! nat (offset + int k div 2)) else 0)
       else ?wb ! k)"
      using "1.IH"[OF True] "1.prems" by simp
    have unf: "pack_iq f2d inOut offset chunk i wb = pack_iq f2d inOut offset chunk (i + 1) ?wb"
      using True by (subst pack_iq.simps) simp
    have upd: "?wb ! k = (if int k = 2 * i then f2d (inOut ! nat (offset + i))
                          else if int k = 2 * i + 1 then 0 else wb ! k)"
      using "1.prems" by (rule pair_update_nth)
    consider "int k = 2 * i" | "int k = 2 * i + 1" | "int k < 2 * i" | "2 * (i + 1) \<le> int k"
      by atomize_elim arith
    then show ?thesis
    proof cases
      case 1
      have "even k" using 1 by presburger
      moreover have "int k div 2 = i" using 1 by simp
      ultimately show ?thesis using True 1 unfolding unf ih upd by simp
    next
      case 2
      have "odd k" using 2 by presburger
      then show ?thesis using True 2 unfolding unf ih upd by simp
    next
      case 3
      then show ?thesis unfolding unf ih upd by simp
    next
      case 4
      then show ?thesis unfolding unf ih upd by simp
    qed
  qed
qed

lemma zero_pad_nth:
  "0 \<le> i \<Longrightarrow> k < length wb \<Longrightarrow>
   zero_pad bsz i wb ! k = (if 2 * i \<le> int k \<and> int k < 2 * bsz then 0 else wb ! k)"
proof (induction bsz i wb rule: zero_pad.induct)
  case (1 bsz i wb)
  show ?case
  proof (cases "i < bsz")
    case False
    then show ?thesis by (subst zero_pad.simps) auto
  next
    case True
    let ?wb = "wb[nat (2 * i + 0) := 0, nat (2 * i + 1) := 0]"
    have ih: "zero_pad bsz (i + 1) ?wb ! k =
      (if 2 * (i + 1) \<le> int k \<and> int k < 2 * bsz then 0 else ?wb ! k)"
      using "1.IH"[OF True] "1.prems" by simp
    have unf: "zero_pad bsz i wb = zero_pad bsz (i + 1) ?wb"
      using True by (subst zero_pad.simps) simp
    have upd: "?wb ! k = (if int k = 2 * i then 0 else if int k = 2 * i + 1 then 0 else wb ! k)"
      using "1.prems" by (rule pair_update_nth)
    consider "int k = 2 * i" | "int k = 2 * i + 1" | "int k < 2 * i" | "2 * (i + 1) \<le> int k"
      by atomize_elim arith
    then show ?thesis
    proof cases
      case 1
      then show ?thesis using True unfolding unf ih upd by simp
    next
      case 2
      then show ?thesis using True unfolding unf ih upd by simp
    next
      case 3
      then show ?thesis unfolding unf ih upd by simp
    next
      case 4
      then show ?thesis unfolding unf ih upd by simp
    qed
  qed
qed

lemma extract_real_nth:
  "0 \<le> i \<Longrightarrow> 0 \<le> offset \<Longrightarrow> j < length inOut \<Longrightarrow>
   extract_real d2f wb offset chunk i inOut ! j =
     (if offset + i \<le> int j \<and> int j < offset + chunk
      then d2f (wb ! nat (2 * (int j - offset)))
      else inOut ! j)"
proof (induction d2f wb offset chunk i inOut rule: extract_real.induct)
  case (1 d2f wb offset chunk i inOut)
  show ?case
  proof (cases "i < chunk")
    case False
    then show ?thesis by (subst extract_real.simps) auto
  next
    case True
    let ?io = "inOut[nat (offset + i) := d2f (wb ! nat (2 * i + 0))]"
    have ih: "extract_real d2f wb offset chunk (i + 1) ?io ! j =
      (if offset + (i + 1) \<le> int j \<and> int j < offset + chunk
       then d2f (wb ! nat (2 * (int j - offset)))
       else ?io ! j)"
      using "1.IH"[OF True] "1.prems" by simp
    have unf: "extract_real d2f wb offset chunk i inOut =
        extract_real d2f wb offset chunk (i + 1) ?io"
      using True by (subst extract_real.simps) simp
    have eq: "nat (offset + i) = j \<longleftrightarrow> int j = offset + i"
      using "1.prems" by linarith
    have upd: "?io ! j = (if int j = offset + i then d2f (wb ! nat (2 * i)) else inOut ! j)"
      using "1.prems" eq by (simp add: nth_list_update)
    consider "int j = offset + i" | "int j < offset + i" | "offset + (i + 1) \<le> int j"
      by atomize_elim arith
    then show ?thesis
    proof cases
      case 1
      have "int j - offset = i" using 1 by simp
      then show ?thesis using True 1 unfolding unf ih upd by simp
    next
      case 2
      then show ?thesis unfolding unf ih upd by simp
    next
      case 3
      then show ?thesis unfolding unf ih upd by simp
    qed
  qed
qed

section \<open>The chunk loop of EMNR\<close>

lemma packed_chunk:
  assumes "0 < c" "c \<le> B" "length wb = nat (2 * B)"
  shows "holds_chunk f2d B inOut offset c (zero_pad B c (pack_iq f2d inOut offset c 0 wb))"
proof -
  let ?p = "pack_iq f2d inOut offset c 0 wb"
  have len: "length ?p = nat (2 * B)" using assms by simp
  have "zero_pad B c ?p ! (2 * i) = (if int i < c then f2d (inOut ! nat (offset + int i)) else 0)
      \<and> zero_pad B c ?p ! (2 * i + 1) = 0" if "i < nat B" for i
  proof -
    have k: "2 * i < length ?p" "2 * i + 1 < length ?p" using that len by linarith+
    have k': "2 * i < length wb" "2 * i + 1 < length wb" using k by simp_all
    have c0: "0 \<le> c" using assms by simp
    have z0: "zero_pad B c ?p ! (2 * i) = (if int i < c then ?p ! (2 * i) else 0)"
      using that by (subst zero_pad_nth[OF c0 k(1)]) auto
    have z1: "zero_pad B c ?p ! (2 * i + 1) = (if int i < c then ?p ! (2 * i + 1) else 0)"
      using that by (subst zero_pad_nth[OF c0 k(2)]) auto
    have p0: "int i < c \<Longrightarrow> ?p ! (2 * i) = f2d (inOut ! nat (offset + int i))"
      by (subst pack_iq_nth[OF _ k'(1)]) auto
    have p1: "int i < c \<Longrightarrow> ?p ! (2 * i + 1) = 0"
      by (subst pack_iq_nth[OF _ k'(2)]) auto
    show ?thesis using z0 z1 p0 p1 by simp
  qed
  then show ?thesis using len by (simp add: holds_chunk_def)
qed

lemma emnr_loop_unfold:
  "emnr_loop x f2d d2f ctx inOut F offset =
     (if offset < F then
        let c = min (F - offset) (WDSP_EMNR.bufSize ctx) in
        if 0 < c \<and> int (length inOut) < offset + c then Some (Inl BufferOverrun)
        else
          (case x (WDSP_EMNR.impl ctx)
                  (zero_pad (WDSP_EMNR.bufSize ctx) c
                     (pack_iq f2d inOut offset c 0 (WDSP_EMNR.workBuf ctx))) of
             (e, wb) \<Rightarrow>
               emnr_loop x f2d d2f (ctx\<lparr>WDSP_EMNR.impl := e, WDSP_EMNR.workBuf := wb\<rparr>)
                 (extract_real d2f wb offset c 0 inOut) F (offset + c))
      else Some (Inr (ctx, inOut)))"
proof -
  have m: "(if WDSP_EMNR.bufSize ctx < F - offset then WDSP_EMNR.bufSize ctx else F - offset)
      = min (F - offset) (WDSP_EMNR.bufSize ctx)"
    by (simp add: min_def)
  show ?thesis
    by (subst emnr_loop.simps) (simp only: Let_def m)
qed

lemma emnr_loop_done:
  "\<not> offset < F \<Longrightarrow> emnr_loop x f2d d2f ctx inOut F offset = Some (Inr (ctx, inOut))"
  by (subst emnr_loop_unfold) simp

lemma emnr_loop_overrun:
  "offset < F \<Longrightarrow> c = min (F - offset) (WDSP_EMNR.bufSize ctx) \<Longrightarrow> 0 < c \<Longrightarrow>
   int (length inOut) < offset + c \<Longrightarrow>
   emnr_loop x f2d d2f ctx inOut F offset = Some (Inl BufferOverrun)"
  by (subst emnr_loop_unfold) (simp add: Let_def)

lemma emnr_loop_step:
  "offset < F \<Longrightarrow> c = min (F - offset) (WDSP_EMNR.bufSize ctx) \<Longrightarrow>
   \<not> (0 < c \<and> int (length inOut) < offset + c) \<Longrightarrow>
   x (WDSP_EMNR.impl ctx)
     (zero_pad (WDSP_EMNR.bufSize ctx) c (pack_iq f2d inOut offset c 0 (WDSP_EMNR.workBuf ctx)))
     = (e', wb') \<Longrightarrow>
   emnr_loop x f2d d2f ctx inOut F offset =
     emnr_loop x f2d d2f (ctx\<lparr>WDSP_EMNR.impl := e', WDSP_EMNR.workBuf := wb'\<rparr>)
       (extract_real d2f wb' offset c 0 inOut) F (offset + c)"
  by (subst emnr_loop_unfold) (auto simp: Let_def)

lemma emnr_loop_returns:
  "0 < WDSP_EMNR.bufSize ctx \<Longrightarrow> F \<le> int (length inOut) \<Longrightarrow>
   \<exists>ctx' out. emnr_loop x f2d d2f ctx inOut F offset = Some (Inr (ctx', out))"
proof (induction "nat (F - offset)" arbitrary: ctx inOut offset rule: less_induct)
  case less
  show ?case
  proof (cases "offset < F")
    case False
    then show ?thesis by (simp add: emnr_loop_done)
  next
    case True
    define c where "c = min (F - offset) (WDSP_EMNR.bufSize ctx)"
    have c: "0 < c" "offset + c \<le> F" using True less.prems by (auto simp: c_def)
    obtain e' wb' where x: "x (WDSP_EMNR.impl ctx)
       (zero_pad (WDSP_EMNR.bufSize ctx) c (pack_iq f2d inOut offset c 0 (WDSP_EMNR.workBuf ctx)))
       = (e', wb')" by fastforce
    have step: "emnr_loop x f2d d2f ctx inOut F offset =
       emnr_loop x f2d d2f (ctx\<lparr>WDSP_EMNR.impl := e', WDSP_EMNR.workBuf := wb'\<rparr>)
         (extract_real d2f wb' offset c 0 inOut) F (offset + c)"
      using True c less.prems
      by (intro emnr_loop_step[where x = x and ctx = ctx, OF _ c_def _ x]) auto
    have "nat (F - (offset + c)) < nat (F - offset)" using c True by linarith
    from less.hyps[OF this, of "ctx\<lparr>WDSP_EMNR.impl := e', WDSP_EMNR.workBuf := wb'\<rparr>"
        "extract_real d2f wb' offset c 0 inOut"] less.prems
    show ?thesis unfolding step by simp
  qed
qed

lemma emnr_loop_frame:
  "emnr_loop x f2d d2f ctx inOut F offset = Some (Inr (ctx', out)) \<Longrightarrow>
   0 < WDSP_EMNR.bufSize ctx \<Longrightarrow> 0 \<le> offset \<Longrightarrow>
   unchanged_outside inOut out offset F \<and>
   WDSP_EMNR.bufSize ctx' = WDSP_EMNR.bufSize ctx \<and>
   WDSP_EMNR.self ctx' = WDSP_EMNR.self ctx \<and>
   WDSP_EMNR.workBuf_p ctx' = WDSP_EMNR.workBuf_p ctx"
proof (induction "nat (F - offset)" arbitrary: ctx inOut offset rule: less_induct)
  case less
  show ?case
  proof (cases "offset < F")
    case False
    then show ?thesis using less.prems by (simp add: emnr_loop_done unchanged_outside_def)
  next
    case True
    define c where "c = min (F - offset) (WDSP_EMNR.bufSize ctx)"
    have c: "0 < c" "offset + c \<le> F" using True less.prems by (auto simp: c_def)
    have no: "\<not> int (length inOut) < offset + c"
      using emnr_loop_overrun[where x = x and ctx = ctx, OF True c_def c(1), of inOut f2d d2f]
        less.prems(1) by auto
    obtain e' wb' where x: "x (WDSP_EMNR.impl ctx)
       (zero_pad (WDSP_EMNR.bufSize ctx) c (pack_iq f2d inOut offset c 0 (WDSP_EMNR.workBuf ctx)))
       = (e', wb')" by fastforce
    let ?ctx = "ctx\<lparr>WDSP_EMNR.impl := e', WDSP_EMNR.workBuf := wb'\<rparr>"
    let ?io = "extract_real d2f wb' offset c 0 inOut"
    have step: "emnr_loop x f2d d2f ctx inOut F offset = emnr_loop x f2d d2f ?ctx ?io F (offset + c)"
      using no by (intro emnr_loop_step[where x = x and ctx = ctx, OF True c_def _ x]) auto
    have m: "nat (F - (offset + c)) < nat (F - offset)" using c True by linarith
    have ih: "unchanged_outside ?io out (offset + c) F \<and>
       WDSP_EMNR.bufSize ctx' = WDSP_EMNR.bufSize ?ctx \<and>
       WDSP_EMNR.self ctx' = WDSP_EMNR.self ?ctx \<and>
       WDSP_EMNR.workBuf_p ctx' = WDSP_EMNR.workBuf_p ?ctx"
      using less.prems(1) less.prems(2,3) c unfolding step
      by (intro less.hyps[OF m]) auto
    have "out ! j = inOut ! j" if "j < length inOut" "int j < offset \<or> F \<le> int j" for j
    proof -
      have "out ! j = ?io ! j" using ih that c by (auto simp: unchanged_outside_def)
      also have "\<dots> = inOut ! j"
        using that c less.prems(3) by (subst extract_real_nth) auto
      finally show ?thesis .
    qed
    then show ?thesis using ih by (simp add: unchanged_outside_def)
  qed
qed

subsection \<open>What a recorded engine sees\<close>

lemma recording_apply:
  "x e wb = (e', wb') \<Longrightarrow> recording x (e, hist) wb = ((e', hist @ [(wb, wb')]), wb')"
  by (simp add: recording_def)

lemma chunks_left:
  fixes d B :: int
  assumes "0 < d" "0 < B"
  shows "(if B < d then (d - B - 1) div B + 1 else 0) + 1 = (d - 1) div B + 1"
proof (cases "B < d")
  case True
  have "(d - 1) div B = (d - B - 1 + B) div B" by simp
  also have "\<dots> = (d - B - 1) div B + 1" using assms by (subst div_add_self2) auto
  finally show ?thesis using True by simp
next
  case False
  then have "(d - 1) div B = 0" using assms by (intro div_pos_pos_trivial) auto
  then show ?thesis using False by simp
qed

lemma emnr_loop_count:
  "emnr_loop (recording x) f2d d2f ctx inOut F offset = Some (Inr (ctx', out)) \<Longrightarrow>
   0 < WDSP_EMNR.bufSize ctx \<Longrightarrow> WDSP_EMNR.impl ctx = (e, hist) \<Longrightarrow>
   \<exists>e' new. WDSP_EMNR.impl ctx' = (e', hist @ new) \<and>
     int (length new) =
       (if offset < F then (F - offset - 1) div WDSP_EMNR.bufSize ctx + 1 else 0)"
proof (induction "nat (F - offset)" arbitrary: ctx inOut offset e hist rule: less_induct)
  case less
  show ?case
  proof (cases "offset < F")
    case False
    then show ?thesis using less.prems by (simp add: emnr_loop_done)
  next
    case True
    define B where "B = WDSP_EMNR.bufSize ctx"
    define c where "c = min (F - offset) (WDSP_EMNR.bufSize ctx)"
    have c: "0 < c" "offset + c \<le> F" using True less.prems by (auto simp: c_def)
    have no: "\<not> int (length inOut) < offset + c"
      using emnr_loop_overrun[where x = "recording x" and ctx = ctx, OF True c_def c(1),
          of inOut f2d d2f] less.prems(1) by auto
    define wb0 where "wb0 = zero_pad (WDSP_EMNR.bufSize ctx) c
        (pack_iq f2d inOut offset c 0 (WDSP_EMNR.workBuf ctx))"
    obtain e1 wb1 where x: "x e wb0 = (e1, wb1)" by fastforce
    have rx: "recording x (WDSP_EMNR.impl ctx) wb0 = ((e1, hist @ [(wb0, wb1)]), wb1)"
      using less.prems(3) recording_apply[where x = x, OF x] by simp
    let ?ctx = "ctx\<lparr>WDSP_EMNR.impl := (e1, hist @ [(wb0, wb1)]), WDSP_EMNR.workBuf := wb1\<rparr>"
    let ?io = "extract_real d2f wb1 offset c 0 inOut"
    have step: "emnr_loop (recording x) f2d d2f ctx inOut F offset =
        emnr_loop (recording x) f2d d2f ?ctx ?io F (offset + c)"
      using no rx unfolding wb0_def
      by (intro emnr_loop_step[where x = "recording x" and ctx = ctx, OF True c_def]) auto
    have m: "nat (F - (offset + c)) < nat (F - offset)" using c True by linarith
    have "\<exists>e' new. WDSP_EMNR.impl ctx' = (e', (hist @ [(wb0, wb1)]) @ new) \<and>
       int (length new) =
         (if offset + c < F then (F - (offset + c) - 1) div WDSP_EMNR.bufSize ?ctx + 1 else 0)"
      using less.prems unfolding step by (intro less.hyps[OF m]) auto
    then obtain e' new where n: "WDSP_EMNR.impl ctx' = (e', hist @ ((wb0, wb1) # new))"
      "int (length new) = (if offset + c < F then (F - (offset + c) - 1) div B + 1 else 0)"
      by (auto simp: B_def)
    have "(if offset + c < F then (F - (offset + c) - 1) div B + 1 else 0) + 1
        = (F - offset - 1) div B + 1"
    proof (cases "B < F - offset")
      case True
      then have "c = B" by (simp add: c_def B_def)
      then show ?thesis
        using chunks_left[of "F - offset" B] True less.prems(2)
        by (simp add: B_def algebra_simps)
    next
      case False
      then have "c = F - offset" by (simp add: c_def B_def)
      then show ?thesis
        using chunks_left[of "F - offset" B] False \<open>offset < F\<close> less.prems(2)
        by (simp add: B_def)
    qed
    then have "int (length ((wb0, wb1) # new)) = (F - offset - 1) div B + 1"
      using n(2) by simp
    then show ?thesis using n(1) True unfolding B_def
      by (intro exI[of _ e'] exI[of _ "(wb0, wb1) # new"]) simp
  qed
qed

lemma holds_chunk_cong:
  assumes "\<And>i. i < nat c \<Longrightarrow> a ! nat (off + int i) = b ! nat (off + int i)"
  shows "holds_chunk f2d B a off c wb = holds_chunk f2d B b off c wb"
proof -
  have "int i < c \<Longrightarrow> a ! nat (off + int i) = b ! nat (off + int i)" for i
    using assms[of i] by linarith
  then show ?thesis unfolding holds_chunk_def by auto
qed

lemma emnr_loop_blocks:
  "emnr_loop (recording x) f2d d2f ctx inOut F offset = Some (Inr (ctx', out)) \<Longrightarrow>
   in_place x \<Longrightarrow> 0 < B \<Longrightarrow> WDSP_EMNR.bufSize ctx = B \<Longrightarrow>
   length (WDSP_EMNR.workBuf ctx) = nat (2 * B) \<Longrightarrow> 0 \<le> offset \<Longrightarrow>
   F \<le> int (length inOut) \<Longrightarrow>
   WDSP_EMNR.impl ctx = (e, hist) \<Longrightarrow> WDSP_EMNR.impl ctx' = (e', hist @ new) \<Longrightarrow>
   k < length new \<Longrightarrow>
   holds_chunk f2d B inOut (offset + int k * B) (min B (F - (offset + int k * B))) (fst (new ! k))
   \<and> written_back d2f out (offset + int k * B) (min B (F - (offset + int k * B))) (snd (new ! k))
   \<and> length (snd (new ! k)) = nat (2 * B)"
proof (induction "nat (F - offset)" arbitrary: ctx inOut offset e hist new k rule: less_induct)
  case less
  show ?case
  proof (cases "offset < F")
    case False
    then show ?thesis using less.prems by (simp add: emnr_loop_done)
  next
    case True
    define c where "c = min (F - offset) (WDSP_EMNR.bufSize ctx)"
    have c: "0 < c" "offset + c \<le> F" "c \<le> B" using True less.prems by (auto simp: c_def)
    have no: "\<not> int (length inOut) < offset + c" using c less.prems by linarith
    define wb0 where "wb0 = zero_pad (WDSP_EMNR.bufSize ctx) c
        (pack_iq f2d inOut offset c 0 (WDSP_EMNR.workBuf ctx))"
    obtain e1 wb1 where x: "x e wb0 = (e1, wb1)" by fastforce
    have rx: "recording x (WDSP_EMNR.impl ctx) wb0 = ((e1, hist @ [(wb0, wb1)]), wb1)"
      using less.prems(8) recording_apply[where x = x, OF x] by simp
    have len0: "length wb0 = nat (2 * B)" using less.prems by (simp add: wb0_def)
    have len1: "length wb1 = nat (2 * B)"
      using less.prems(2) x len0 unfolding in_place_def by (metis snd_conv)
    let ?ctx = "ctx\<lparr>WDSP_EMNR.impl := (e1, hist @ [(wb0, wb1)]), WDSP_EMNR.workBuf := wb1\<rparr>"
    let ?io = "extract_real d2f wb1 offset c 0 inOut"
    have step: "emnr_loop (recording x) f2d d2f ctx inOut F offset =
        emnr_loop (recording x) f2d d2f ?ctx ?io F (offset + c)"
      using no rx unfolding wb0_def
      by (intro emnr_loop_step[where x = "recording x" and ctx = ctx, OF True c_def]) auto
    have rec: "emnr_loop (recording x) f2d d2f ?ctx ?io F (offset + c) = Some (Inr (ctx', out))"
      using less.prems(1) unfolding step .
    have m: "nat (F - (offset + c)) < nat (F - offset)" using c True by linarith
    obtain e2 new2 where n2: "WDSP_EMNR.impl ctx' = (e2, (hist @ [(wb0, wb1)]) @ new2)"
      "int (length new2) = (if offset + c < F then (F - (offset + c) - 1) div B + 1 else 0)"
      using emnr_loop_count[OF rec, of e1 "hist @ [(wb0, wb1)]"] less.prems(3,4) by auto
    have new: "new = (wb0, wb1) # new2" and e2: "e2 = e'" using n2(1) less.prems(9) by simp_all
    have fr: "unchanged_outside ?io out (offset + c) F"
      using emnr_loop_frame[OF rec] less.prems(3,4,6) c by simp
    show ?thesis
    proof (cases k)
      case 0
      have h: "holds_chunk f2d B inOut offset c wb0"
        unfolding wb0_def using c less.prems(4,5) by (simp add: packed_chunk)
      have "out ! nat (offset + int i) = d2f (wb1 ! (2 * i))" if "i < nat c" for i
      proof -
        have j: "nat (offset + int i) < length inOut" using that c no less.prems(6) by linarith
        have "out ! nat (offset + int i) = ?io ! nat (offset + int i)"
          using fr j that less.prems(6) by (auto simp: unchanged_outside_def)
        also have "\<dots> = d2f (wb1 ! nat (2 * (int (nat (offset + int i)) - offset)))"
          using that less.prems(6) j by (subst extract_real_nth) auto
        also have "nat (2 * (int (nat (offset + int i)) - offset)) = 2 * i"
          using less.prems(6) by simp
        finally show ?thesis .
      qed
      then have w: "written_back d2f out offset c wb1" by (simp add: written_back_def)
      have "min B (F - offset) = c" using less.prems(4) by (simp add: c_def min.commute)
      then show ?thesis using 0 new h w len1 by simp
    next
      case (Suc k')
      then have k': "k' < length new2" using less.prems(10) new by simp
      then have "offset + c < F" using n2(2) by (auto split: if_splits)
      then have cB: "c = B" using less.prems(4) by (auto simp: c_def min_def split: if_splits)
      have off: "offset + c + int k' * B = offset + int k * B"
        using Suc cB by (simp add: algebra_simps)
      define offk where "offk = offset + int k * B"
      define ck where "ck = min B (F - offk)"
      have ih: "holds_chunk f2d B ?io offk ck (fst (new2 ! k'))
        \<and> written_back d2f out offk ck (snd (new2 ! k'))
        \<and> length (snd (new2 ! k')) = nat (2 * B)"
        using less.hyps[OF m rec less.prems(2,3), where hist = "hist @ [(wb0, wb1)]" and e = e1
            and new = new2 and k = k']
          less.prems(4,6,7) len1 c n2(1) k' e2 unfolding off offk_def ck_def by simp
      have ge: "offset + c \<le> offk" using Suc cB less.prems(3) by (simp add: offk_def algebra_simps)
      have "?io ! nat (offk + int i) = inOut ! nat (offk + int i)" if "i < nat ck" for i
      proof -
        have "offk + int i < F" using that by (simp add: ck_def)
        then have j: "nat (offk + int i) < length inOut"
          using less.prems(6,7) ge c by linarith
        show ?thesis using ge c less.prems(6) j by (subst extract_real_nth) auto
      qed
      then have "holds_chunk f2d B ?io offk ck (fst (new2 ! k'))
          = holds_chunk f2d B inOut offk ck (fst (new2 ! k'))"
        by (rule holds_chunk_cong)
      then show ?thesis using ih new Suc unfolding offk_def ck_def by simp
    qed
  qed
qed

section \<open>The chunk loop of ANR\<close>

lemma as_emnr_simps [simp]:
  "WDSP_EMNR.self (as_emnr c) = WDSP_ANR.self c"
  "WDSP_EMNR.impl (as_emnr c) = WDSP_ANR.impl c"
  "WDSP_EMNR.workBuf_p (as_emnr c) = WDSP_ANR.workBuf_p c"
  "WDSP_EMNR.workBuf (as_emnr c) = WDSP_ANR.workBuf c"
  "WDSP_EMNR.bufSize (as_emnr c) = WDSP_ANR.bufSize c"
  "as_emnr (c\<lparr>WDSP_ANR.impl := e, WDSP_ANR.workBuf := wb\<rparr>)
     = (as_emnr c)\<lparr>WDSP_EMNR.impl := e, WDSP_EMNR.workBuf := wb\<rparr>"
  "as_anr (as_emnr c) = c"
  by (simp_all add: as_emnr_def as_anr_def)

lemma as_anr_inverse [simp]: "as_emnr (as_anr c) = c"
  by (simp add: as_emnr_def as_anr_def)

lemma anr_loop_unfold:
  "anr_loop x f2d d2f ctx inOut F offset =
     (if offset < F then
        let c = min (F - offset) (WDSP_ANR.bufSize ctx) in
        if 0 < c \<and> int (length inOut) < offset + c then Some (Inl BufferOverrun)
        else
          (case x (WDSP_ANR.impl ctx)
                  (zero_pad (WDSP_ANR.bufSize ctx) c
                     (pack_iq f2d inOut offset c 0 (WDSP_ANR.workBuf ctx))) of
             (e, wb) \<Rightarrow>
               anr_loop x f2d d2f (ctx\<lparr>WDSP_ANR.impl := e, WDSP_ANR.workBuf := wb\<rparr>)
                 (extract_real d2f wb offset c 0 inOut) F (offset + c))
      else Some (Inr (ctx, inOut)))"
proof -
  have m: "(if WDSP_ANR.bufSize ctx < F - offset then WDSP_ANR.bufSize ctx else F - offset)
      = min (F - offset) (WDSP_ANR.bufSize ctx)"
    by (simp add: min_def)
  show ?thesis
    by (subst anr_loop.simps) (simp only: Let_def m)
qed

lemma anr_loop_emnr:
  "0 < WDSP_ANR.bufSize ctx \<Longrightarrow>
   anr_loop x f2d d2f ctx inOut F offset =
     map_option (map_sum id (map_prod as_anr id))
       (emnr_loop x f2d d2f (as_emnr ctx) inOut F offset)"
proof (induction "nat (F - offset)" arbitrary: ctx inOut offset rule: less_induct)
  case less
  show ?case
  proof (cases "offset < F")
    case False
    then show ?thesis by (simp add: anr_loop_unfold[of x f2d d2f ctx] emnr_loop_done)
  next
    case True
    define c where "c = min (F - offset) (WDSP_ANR.bufSize ctx)"
    have c: "0 < c" "offset + c \<le> F" using True less.prems by (auto simp: c_def)
    show ?thesis
    proof (cases "int (length inOut) < offset + c")
      case over: True
      have "anr_loop x f2d d2f ctx inOut F offset = Some (Inl BufferOverrun)"
        using True c over by (subst anr_loop_unfold) (simp add: Let_def c_def)
      moreover have "emnr_loop x f2d d2f (as_emnr ctx) inOut F offset = Some (Inl BufferOverrun)"
        using True c over by (subst emnr_loop_unfold) (simp add: Let_def c_def)
      ultimately show ?thesis by simp
    next
      case False
      obtain e' wb' where x: "x (WDSP_ANR.impl ctx)
         (zero_pad (WDSP_ANR.bufSize ctx) c (pack_iq f2d inOut offset c 0 (WDSP_ANR.workBuf ctx)))
         = (e', wb')" by fastforce
      let ?ctx = "ctx\<lparr>WDSP_ANR.impl := e', WDSP_ANR.workBuf := wb'\<rparr>"
      let ?io = "extract_real d2f wb' offset c 0 inOut"
      have a: "anr_loop x f2d d2f ctx inOut F offset = anr_loop x f2d d2f ?ctx ?io F (offset + c)"
        using True False x by (subst anr_loop_unfold) (simp add: Let_def c_def)
      have b: "emnr_loop x f2d d2f (as_emnr ctx) inOut F offset =
          emnr_loop x f2d d2f (as_emnr ?ctx) ?io F (offset + c)"
        using True False x by (subst emnr_loop_unfold) (simp add: Let_def c_def)
      have m: "nat (F - (offset + c)) < nat (F - offset)" using c True by linarith
      show ?thesis unfolding a b using less.prems by (intro less.hyps[OF m]) simp
    qed
  qed
qed

lemma anr_loop_via:
  "0 < WDSP_ANR.bufSize ctx \<Longrightarrow>
   anr_loop x f2d d2f ctx inOut F offset = Some (Inr (ctx', out)) \<longleftrightarrow>
   emnr_loop x f2d d2f (as_emnr ctx) inOut F offset = Some (Inr (as_emnr ctx', out))"
proof -
  assume "0 < WDSP_ANR.bufSize ctx"
  note eq = anr_loop_emnr[OF this, of x f2d d2f inOut F offset]
  show ?thesis
  proof
    assume "anr_loop x f2d d2f ctx inOut F offset = Some (Inr (ctx', out))"
    then obtain r where r: "emnr_loop x f2d d2f (as_emnr ctx) inOut F offset = Some r"
      "map_sum id (map_prod as_anr id) r = Inr (ctx', out)"
      unfolding eq by auto
    then obtain c' where "r = Inr (c', out)" "ctx' = as_anr c'"
      by (cases r) auto
    with r have "emnr_loop x f2d d2f (as_emnr ctx) inOut F offset = Some (Inr (c', out))"
      "ctx' = as_anr c'" by simp_all
    then show "emnr_loop x f2d d2f (as_emnr ctx) inOut F offset = Some (Inr (as_emnr ctx', out))"
      by simp
  next
    assume "emnr_loop x f2d d2f (as_emnr ctx) inOut F offset = Some (Inr (as_emnr ctx', out))"
    then show "anr_loop x f2d d2f ctx inOut F offset = Some (Inr (ctx', out))"
      unfolding eq by simp
  qed
qed

lemma anr_loop_returns:
  "0 < WDSP_ANR.bufSize ctx \<Longrightarrow> F \<le> int (length inOut) \<Longrightarrow>
   \<exists>ctx' out. anr_loop x f2d d2f ctx inOut F offset = Some (Inr (ctx', out))"
  using emnr_loop_returns[of "as_emnr ctx" F inOut x f2d d2f offset]
  by (auto simp: anr_loop_emnr)

lemma anr_loop_frame:
  "anr_loop x f2d d2f ctx inOut F offset = Some (Inr (ctx', out)) \<Longrightarrow>
   0 < WDSP_ANR.bufSize ctx \<Longrightarrow> 0 \<le> offset \<Longrightarrow>
   unchanged_outside inOut out offset F \<and>
   WDSP_ANR.bufSize ctx' = WDSP_ANR.bufSize ctx \<and>
   WDSP_ANR.self ctx' = WDSP_ANR.self ctx \<and>
   WDSP_ANR.workBuf_p ctx' = WDSP_ANR.workBuf_p ctx"
  using emnr_loop_frame[of x f2d d2f "as_emnr ctx" inOut F offset "as_emnr ctx'" out]
  by (simp add: anr_loop_via)

lemma anr_loop_count:
  "anr_loop (recording x) f2d d2f ctx inOut F offset = Some (Inr (ctx', out)) \<Longrightarrow>
   0 < WDSP_ANR.bufSize ctx \<Longrightarrow> WDSP_ANR.impl ctx = (e, hist) \<Longrightarrow>
   \<exists>e' new. WDSP_ANR.impl ctx' = (e', hist @ new) \<and>
     int (length new) =
       (if offset < F then (F - offset - 1) div WDSP_ANR.bufSize ctx + 1 else 0)"
  using emnr_loop_count[of x f2d d2f "as_emnr ctx" inOut F offset "as_emnr ctx'" out e hist]
  by (auto simp: anr_loop_via split: if_splits)

lemma anr_loop_blocks:
  "anr_loop (recording x) f2d d2f ctx inOut F offset = Some (Inr (ctx', out)) \<Longrightarrow>
   in_place x \<Longrightarrow> 0 < B \<Longrightarrow> WDSP_ANR.bufSize ctx = B \<Longrightarrow>
   length (WDSP_ANR.workBuf ctx) = nat (2 * B) \<Longrightarrow> 0 \<le> offset \<Longrightarrow>
   F \<le> int (length inOut) \<Longrightarrow>
   WDSP_ANR.impl ctx = (e, hist) \<Longrightarrow> WDSP_ANR.impl ctx' = (e', hist @ new) \<Longrightarrow>
   k < length new \<Longrightarrow>
   holds_chunk f2d B inOut (offset + int k * B) (min B (F - (offset + int k * B))) (fst (new ! k))
   \<and> written_back d2f out (offset + int k * B) (min B (F - (offset + int k * B))) (snd (new ! k))
   \<and> length (snd (new ! k)) = nat (2 * B)"
  using emnr_loop_blocks[of x f2d d2f "as_emnr ctx" inOut F offset "as_emnr ctx'" out B e hist e'
      new k]
  by (simp add: anr_loop_via)

subsection \<open>Recording an engine changes nothing else\<close>

text \<open>
  Run with \<open>recording x\<close>, the loop makes the same calls, in the same states and on the same
  arrays, as with \<open>x\<close>, and leaves the same buffer: dropping the recorded list from its
  result gives the result of the run with \<open>x\<close>. What the recorded list shows of a run is thus
  what happens in every run.
\<close>

lemma emnr_plain_simps [simp]:
  "WDSP_EMNR.impl (emnr_plain c) = fst (WDSP_EMNR.impl c)"
  "WDSP_EMNR.workBuf (emnr_plain c) = WDSP_EMNR.workBuf c"
  "WDSP_EMNR.bufSize (emnr_plain c) = WDSP_EMNR.bufSize c"
  "emnr_plain (c\<lparr>WDSP_EMNR.impl := p, WDSP_EMNR.workBuf := wb\<rparr>)
     = (emnr_plain c)\<lparr>WDSP_EMNR.impl := fst p, WDSP_EMNR.workBuf := wb\<rparr>"
  by (simp_all add: emnr_plain_def)

lemma recording_fst:
  "fst (recording x p wb) = (fst (x (fst p) wb), snd p @ [(wb, snd (x (fst p) wb))])"
  "snd (recording x p wb) = snd (x (fst p) wb)"
  by (simp_all add: recording_def split: prod.splits)

lemma emnr_loop_recording:
  "0 < WDSP_EMNR.bufSize ctx \<Longrightarrow>
   map_option (map_sum id (map_prod emnr_plain id))
     (emnr_loop (recording x) f2d d2f ctx inOut F offset)
   = emnr_loop x f2d d2f (emnr_plain ctx) inOut F offset"
proof (induction "nat (F - offset)" arbitrary: ctx inOut offset rule: less_induct)
  case less
  show ?case
  proof (cases "offset < F")
    case False
    then show ?thesis by (simp add: emnr_loop_done)
  next
    case True
    define c where "c = min (F - offset) (WDSP_EMNR.bufSize ctx)"
    have c: "0 < c" "offset + c \<le> F" using True less.prems by (auto simp: c_def)
    show ?thesis
    proof (cases "int (length inOut) < offset + c")
      case over: True
      have "emnr_loop (recording x) f2d d2f ctx inOut F offset = Some (Inl BufferOverrun)"
        using True c over by (subst emnr_loop_unfold) (simp add: Let_def c_def)
      moreover have "emnr_loop x f2d d2f (emnr_plain ctx) inOut F offset
          = Some (Inl BufferOverrun)"
        using True c over by (subst emnr_loop_unfold) (simp add: Let_def c_def)
      ultimately show ?thesis by simp
    next
      case False
      define wb0 where "wb0 = zero_pad (WDSP_EMNR.bufSize ctx) c
          (pack_iq f2d inOut offset c 0 (WDSP_EMNR.workBuf ctx))"
      obtain p' wb' where r: "recording x (WDSP_EMNR.impl ctx) wb0 = (p', wb')" by fastforce
      have x: "x (fst (WDSP_EMNR.impl ctx)) wb0 = (fst p', wb')"
        using r recording_fst[of x "WDSP_EMNR.impl ctx" wb0]
        by (cases "x (fst (WDSP_EMNR.impl ctx)) wb0") simp
      let ?ctx = "ctx\<lparr>WDSP_EMNR.impl := p', WDSP_EMNR.workBuf := wb'\<rparr>"
      let ?io = "extract_real d2f wb' offset c 0 inOut"
      have l: "emnr_loop (recording x) f2d d2f ctx inOut F offset =
          emnr_loop (recording x) f2d d2f ?ctx ?io F (offset + c)"
        using True False r by (subst emnr_loop_unfold) (simp add: Let_def c_def wb0_def)
      have rr: "emnr_loop x f2d d2f (emnr_plain ctx) inOut F offset =
          emnr_loop x f2d d2f (emnr_plain ?ctx) ?io F (offset + c)"
        using True False x by (subst emnr_loop_unfold) (simp add: Let_def c_def wb0_def)
      have m: "nat (F - (offset + c)) < nat (F - offset)" using c True by linarith
      show ?thesis unfolding l rr using less.prems by (intro less.hyps[OF m]) simp
    qed
  qed
qed

lemma plain_commute:
  "map_sum id (map_prod anr_plain id) (map_sum id (map_prod as_anr id) r)
   = map_sum id (map_prod as_anr id) (map_sum id (map_prod emnr_plain id) r)"
  by (cases r) (auto simp: as_anr_def anr_plain_def emnr_plain_def)

lemma anr_loop_recording:
  "0 < WDSP_ANR.bufSize ctx \<Longrightarrow>
   map_option (map_sum id (map_prod anr_plain id))
     (anr_loop (recording x) f2d d2f ctx inOut F offset)
   = anr_loop x f2d d2f (anr_plain ctx) inOut F offset"
proof -
  assume p: "0 < WDSP_ANR.bufSize ctx"
  have q: "0 < WDSP_ANR.bufSize (anr_plain ctx)" using p by (simp add: anr_plain_def)
  have e: "as_emnr (anr_plain ctx) = emnr_plain (as_emnr ctx)"
    by (simp add: as_emnr_def anr_plain_def emnr_plain_def)
  have "map_option (map_sum id (map_prod anr_plain id))
      (anr_loop (recording x) f2d d2f ctx inOut F offset)
    = map_option (map_sum id (map_prod as_anr id))
        (map_option (map_sum id (map_prod emnr_plain id))
           (emnr_loop (recording x) f2d d2f (as_emnr ctx) inOut F offset))"
    unfolding anr_loop_emnr[OF p]
    by (simp add: option.map_comp comp_def plain_commute)
  also have "\<dots> = anr_loop x f2d d2f (anr_plain ctx) inOut F offset"
    unfolding anr_loop_emnr[OF q] e using p by (subst emnr_loop_recording) simp_all
  finally show ?thesis .
qed

subsection \<open>Both loops end\<close>

lemma anr_loop_done:
  "\<not> offset < F \<Longrightarrow> anr_loop x f2d d2f ctx inOut F offset = Some (Inr (ctx, inOut))"
  by (subst anr_loop_unfold) simp

lemma emnr_loop_terminates:
  "0 < WDSP_EMNR.bufSize ctx \<Longrightarrow> \<exists>r. emnr_loop x f2d d2f ctx inOut F offset = Some r"
proof (induction "nat (F - offset)" arbitrary: ctx inOut offset rule: less_induct)
  case less
  show ?case
  proof (cases "offset < F")
    case False
    then show ?thesis by (simp add: emnr_loop_done)
  next
    case True
    define c where "c = min (F - offset) (WDSP_EMNR.bufSize ctx)"
    have c: "0 < c" "offset + c \<le> F" using True less.prems by (auto simp: c_def)
    show ?thesis
    proof (cases "int (length inOut) < offset + c")
      case over: True
      show ?thesis
        using emnr_loop_overrun[where x = x and ctx = ctx and inOut = inOut and f2d = f2d
            and d2f = d2f, OF True c_def c(1) over] by simp
    next
      case False
      obtain e' wb' where x: "x (WDSP_EMNR.impl ctx)
         (zero_pad (WDSP_EMNR.bufSize ctx) c (pack_iq f2d inOut offset c 0 (WDSP_EMNR.workBuf ctx)))
         = (e', wb')" by fastforce
      have step: "emnr_loop x f2d d2f ctx inOut F offset =
         emnr_loop x f2d d2f (ctx\<lparr>WDSP_EMNR.impl := e', WDSP_EMNR.workBuf := wb'\<rparr>)
           (extract_real d2f wb' offset c 0 inOut) F (offset + c)"
        using False by (intro emnr_loop_step[where x = x and ctx = ctx, OF True c_def _ x]) auto
      have "nat (F - (offset + c)) < nat (F - offset)" using c True by linarith
      from less.hyps[OF this, of "ctx\<lparr>WDSP_EMNR.impl := e', WDSP_EMNR.workBuf := wb'\<rparr>"
          "extract_real d2f wb' offset c 0 inOut"] less.prems
      show ?thesis unfolding step by simp
    qed
  qed
qed

lemma anr_loop_terminates:
  "0 < WDSP_ANR.bufSize ctx \<Longrightarrow> \<exists>r. anr_loop x f2d d2f ctx inOut F offset = Some r"
  using emnr_loop_terminates[of "as_emnr ctx" x f2d d2f inOut F offset]
  by (auto simp: anr_loop_emnr)

subsection \<open>Arithmetic of the chunks\<close>

lemma unchanged_outside_drop:
  assumes "unchanged_outside inOut out lo hi"
  shows "drop (nat hi) out = drop (nat hi) inOut"
proof (rule nth_equalityI)
  show "length (drop (nat hi) out) = length (drop (nat hi) inOut)"
    using assms by (simp add: unchanged_outside_def)
next
  fix i assume "i < length (drop (nat hi) out)"
  then have i: "nat hi + i < length inOut" "nat hi \<le> length inOut" "nat hi \<le> length out"
    using assms by (auto simp: unchanged_outside_def)
  have "hi \<le> int (nat hi + i)" by linarith
  then have "out ! (nat hi + i) = inOut ! (nat hi + i)"
    using assms i(1) by (auto simp: unchanged_outside_def)
  then show "drop (nat hi) out ! i = drop (nat hi) inOut ! i"
    using i by simp
qed

lemma chunks_ceiling:
  fixes F :: int
  assumes "0 \<le> F"
  shows "(if 0 < F then (F - 1) div 480 + 1 else 0) = \<lceil>real_of_int F / 480\<rceil>"
proof (cases "0 < F")
  case False
  then have "F = 0" using assms by simp
  then show ?thesis by simp
next
  case True
  define q where "q = (F - 1) div 480"
  define r where "r = (F - 1) mod 480"
  define z where "z = q + 1"
  have m: "0 \<le> r" "r < 480" by (simp_all add: r_def)
  have d: "F - 1 = 480 * q + r" by (simp add: q_def r_def)
  have lo: "480 * (z - 1) < F" using m d by (simp add: z_def)
  have hi: "F \<le> 480 * z" using m d by (simp add: z_def)
  have "real_of_int (480 * (z - 1)) < real_of_int F" using lo by (simp only: of_int_less_iff)
  then have 1: "real_of_int z - 1 < real_of_int F / 480" by simp
  have "real_of_int F \<le> real_of_int (480 * z)" using hi by (simp only: of_int_le_iff)
  then have 2: "real_of_int F / 480 \<le> real_of_int z" by simp
  have "\<lceil>real_of_int F / 480\<rceil> = z" using 1 2 by (rule ceiling_unique)
  then show ?thesis using True by (simp add: z_def q_def)
qed

lemma last_chunk_index:
  fixes F :: int
  assumes "0 \<le> F" "F mod 480 \<noteq> 0"
  shows "0 < F" and "(F - 1) div 480 = F div 480" and "0 \<le> F div 480"
    and "F div 480 * 480 = F - F mod 480" and "min 480 (F - (F - F mod 480)) = F mod 480"
proof -
  define q where "q = F div 480"
  define r where "r = F mod 480"
  have "0 \<le> F mod 480" "F mod 480 < 480" by simp_all
  then have r: "0 < r" "r < 480" using assms(2) by (simp_all add: r_def)
  have d: "F = r + q * 480" by (simp add: q_def r_def)
  show "0 < F" using assms by (cases "F = 0") auto
  have "(F - 1) div 480 = (r - 1 + q * 480) div 480" using d by simp
  also have "\<dots> = q + (r - 1) div 480" by (rule div_mult_self1) simp
  also have "(r - 1) div 480 = 0" using r by (intro div_pos_pos_trivial) auto
  finally show "(F - 1) div 480 = F div 480" by (simp add: q_def)
  show "0 \<le> F div 480" using assms(1) by (simp add: pos_imp_zdiv_nonneg_iff)
  show "F div 480 * 480 = F - F mod 480" by (simp add: minus_mod_eq_div_mult)
  show "min 480 (F - (F - F mod 480)) = F mod 480" using r by (simp add: r_def)
qed

lemma holds_chunk_imag:
  "holds_chunk f2d B inOut off c wb \<Longrightarrow> i < nat B \<Longrightarrow> wb ! (2 * i + 1) = 0"
  by (simp add: holds_chunk_def)

subsection \<open>Sessions do not depend on where the handle lives\<close>

lemma readdr_commute:
  "(ctx\<lparr>WDSP_EMNR.self := a, WDSP_EMNR.workBuf_p := b\<rparr>)\<lparr>WDSP_EMNR.impl := e, WDSP_EMNR.workBuf := wb\<rparr>
   = (ctx\<lparr>WDSP_EMNR.impl := e, WDSP_EMNR.workBuf := wb\<rparr>)\<lparr>WDSP_EMNR.self := a, WDSP_EMNR.workBuf_p := b\<rparr>"
  by (cases ctx) simp

lemma emnr_loop_readdr:
  "0 < WDSP_EMNR.bufSize ctx \<Longrightarrow>
   emnr_loop x f2d d2f (ctx\<lparr>WDSP_EMNR.self := a, WDSP_EMNR.workBuf_p := b\<rparr>) inOut F offset =
     map_option (map_sum id (map_prod (\<lambda>c. c\<lparr>WDSP_EMNR.self := a, WDSP_EMNR.workBuf_p := b\<rparr>) id))
       (emnr_loop x f2d d2f ctx inOut F offset)"
proof (induction "nat (F - offset)" arbitrary: ctx inOut offset rule: less_induct)
  case less
  let ?r = "\<lambda>c. c\<lparr>WDSP_EMNR.self := a, WDSP_EMNR.workBuf_p := b\<rparr>"
  show ?case
  proof (cases "offset < F")
    case False
    then show ?thesis by (simp add: emnr_loop_done)
  next
    case True
    define c where "c = min (F - offset) (WDSP_EMNR.bufSize ctx)"
    have c: "0 < c" "offset + c \<le> F" using True less.prems by (auto simp: c_def)
    show ?thesis
    proof (cases "int (length inOut) < offset + c")
      case over: True
      have "emnr_loop x f2d d2f (?r ctx) inOut F offset = Some (Inl BufferOverrun)"
        using True c over by (subst emnr_loop_unfold) (simp add: Let_def c_def)
      moreover have "emnr_loop x f2d d2f ctx inOut F offset = Some (Inl BufferOverrun)"
        using True c over by (subst emnr_loop_unfold) (simp add: Let_def c_def)
      ultimately show ?thesis by simp
    next
      case False
      obtain e' wb' where x: "x (WDSP_EMNR.impl ctx)
         (zero_pad (WDSP_EMNR.bufSize ctx) c (pack_iq f2d inOut offset c 0 (WDSP_EMNR.workBuf ctx)))
         = (e', wb')" by fastforce
      let ?ctx = "ctx\<lparr>WDSP_EMNR.impl := e', WDSP_EMNR.workBuf := wb'\<rparr>"
      let ?io = "extract_real d2f wb' offset c 0 inOut"
      have l: "emnr_loop x f2d d2f (?r ctx) inOut F offset =
          emnr_loop x f2d d2f (?r ?ctx) ?io F (offset + c)"
        using True False x
        by (subst emnr_loop_unfold) (simp add: Let_def c_def readdr_commute[symmetric])
      have r: "emnr_loop x f2d d2f ctx inOut F offset = emnr_loop x f2d d2f ?ctx ?io F (offset + c)"
        using True False x by (subst emnr_loop_unfold) (simp add: Let_def c_def)
      have m: "nat (F - (offset + c)) < nat (F - offset)" using c True by linarith
      show ?thesis unfolding l r using less.prems by (intro less.hyps[OF m]) simp
    qed
  qed
qed

lemma emnr_run_readdr:
  "0 < WDSP_EMNR.bufSize ctx \<Longrightarrow>
   emnr_run x f2d d2f (ctx\<lparr>WDSP_EMNR.self := a, WDSP_EMNR.workBuf_p := b\<rparr>) calls =
   emnr_run x f2d d2f ctx calls"
proof (induction calls arbitrary: ctx)
  case Nil
  show ?case by simp
next
  case (Cons call calls)
  obtain inOut F where call: "call = (inOut, F)" by (cases call)
  note eq = emnr_loop_readdr[OF Cons.prems, where x = x and f2d = f2d and d2f = d2f and a = a
      and b = b and inOut = inOut and F = F and offset = 0]
  show ?case
  proof (cases "emnr_loop x f2d d2f ctx inOut F 0")
    case None
    then show ?thesis using eq by (simp add: call wdsp_emnr_process_def)
  next
    case (Some r)
    show ?thesis
    proof (cases r)
      case (Inl err)
      then show ?thesis using eq Some by (simp add: call wdsp_emnr_process_def)
    next
      case (Inr p)
      obtain ctx' out where p: "p = (ctx', out)" by (cases p)
      have "0 < WDSP_EMNR.bufSize ctx'"
        using emnr_loop_frame[of x f2d d2f ctx inOut F 0 ctx' out] Some Inr p Cons.prems by simp
      from Cons.IH[OF this] show ?thesis
        using eq Some Inr p by (simp add: call wdsp_emnr_process_def)
    qed
  qed
qed

lemma anr_run_emnr:
  "0 < WDSP_ANR.bufSize ctx \<Longrightarrow>
   anr_run x f2d d2f ctx calls = emnr_run x f2d d2f (as_emnr ctx) calls"
proof (induction calls arbitrary: ctx)
  case Nil
  show ?case by simp
next
  case (Cons call calls)
  obtain inOut F where call: "call = (inOut, F)" by (cases call)
  note eq = anr_loop_emnr[OF Cons.prems, where x = x and f2d = f2d and d2f = d2f
      and inOut = inOut and F = F and offset = 0]
  show ?case
  proof (cases "emnr_loop x f2d d2f (as_emnr ctx) inOut F 0")
    case None
    then show ?thesis using eq by (simp add: call wdsp_emnr_process_def wdsp_anr_process_def)
  next
    case (Some r)
    show ?thesis
    proof (cases r)
      case (Inl err)
      then show ?thesis
        using eq Some by (simp add: call wdsp_emnr_process_def wdsp_anr_process_def)
    next
      case (Inr p)
      obtain ctx' out where p: "p = (ctx', out)" by (cases p)
      have "0 < WDSP_EMNR.bufSize ctx'"
        using emnr_loop_frame[of x f2d d2f "as_emnr ctx" inOut F 0 ctx' out] Some Inr p Cons.prems
        by simp
      then have "0 < WDSP_ANR.bufSize (as_anr ctx')" by (simp add: as_anr_def)
      from Cons.IH[OF this] show ?thesis
        using eq Some Inr p by (simp add: call wdsp_emnr_process_def wdsp_anr_process_def)
    qed
  qed
qed

section \<open>Construction\<close>

lemma calloc_refused:
  "refusals w = True # rest \<Longrightarrow> calloc n w = (None, w\<lparr>refusals := rest\<rparr>)"
  by (simp add: calloc_def)

lemma calloc_granted:
  "\<not> (\<exists>rest. refusals w = True # rest) \<Longrightarrow>
   calloc n w = (Some (fresh w),
     w\<lparr>blocks := (blocks w)(fresh w \<mapsto> n), fresh := Suc (fresh w), refusals := tl (refusals w)\<rparr>)"
  by (auto simp: calloc_def split: list.splits bool.splits)

lemma calloc_None_iff: "fst (calloc n w) = None \<longleftrightarrow> (\<exists>rest. refusals w = True # rest)"
  by (auto simp: calloc_def split: list.splits bool.splits)

lemma emnr_create_cases:
  fixes w :: "'w world"
    and create_emnr :: "int \<Rightarrow> int \<Rightarrow> int \<Rightarrow> addr \<Rightarrow> addr \<Rightarrow> int \<Rightarrow> int \<Rightarrow> int \<Rightarrow> int \<Rightarrow> real
       \<Rightarrow> int \<Rightarrow> int \<Rightarrow> int \<Rightarrow> 'w \<Rightarrow> 'e option \<times> 'w"
    and sampleRate :: int
  defines "w1 \<equiv> snd (calloc 1 w)"
  defines "w2 \<equiv> snd (calloc 960 w1)"
  defines "r \<equiv> create_emnr 1 0 480 (Suc (fresh w)) (Suc (fresh w)) 1920 4 sampleRate 0 1.0 2 0 1
                (engines w)"
  shows "wdsp_emnr_create create_emnr sampleRate w =
     (if fst (calloc 1 w) = None then (None, w1)
      else if fst (calloc 960 w1) = None then (None, free (fresh w) w2)
      else case r of
        (None, ew) \<Rightarrow> (None, free (fresh w) (free (Suc (fresh w)) (w2\<lparr>engines := ew\<rparr>)))
      | (Some e, ew) \<Rightarrow>
          (Some \<lparr>WDSP_EMNR.self = fresh w, WDSP_EMNR.impl = e, WDSP_EMNR.workBuf_p = Suc (fresh w),
                 WDSP_EMNR.workBuf = replicate 960 0, WDSP_EMNR.bufSize = 480\<rparr>,
           w2\<lparr>engines := ew\<rparr>))"
  unfolding w1_def w2_def r_def
  by (auto simp: wdsp_emnr_create_def calloc_def free_def Let_def
      split: list.splits bool.splits prod.splits option.splits)

lemma anr_create_cases:
  fixes w :: "'w world"
    and create_anr :: "int \<Rightarrow> int \<Rightarrow> int \<Rightarrow> addr \<Rightarrow> addr \<Rightarrow> int \<Rightarrow> int \<Rightarrow> int
      \<Rightarrow> real \<Rightarrow> real \<Rightarrow> real \<Rightarrow> real \<Rightarrow> real \<Rightarrow> real \<Rightarrow> real \<Rightarrow> real \<Rightarrow> real
      \<Rightarrow> 'w \<Rightarrow> 'e option \<times> 'w"
    and sampleRate :: int
  defines "w1 \<equiv> snd (calloc 1 w)"
  defines "w2 \<equiv> snd (calloc 960 w1)"
  defines "r \<equiv> create_anr 1 0 480 (Suc (fresh w)) (Suc (fresh w)) 2048 64 16
                0.0001 0.1 120.0 120.0 200.0 0.001 (6.25 / 10 ^ 10) 1.0 3.0 (engines w)"
  shows "wdsp_anr_create create_anr sampleRate w =
     (if fst (calloc 1 w) = None then (None, w1)
      else if fst (calloc 960 w1) = None then (None, free (fresh w) w2)
      else case r of
        (None, ew) \<Rightarrow> (None, free (fresh w) (free (Suc (fresh w)) (w2\<lparr>engines := ew\<rparr>)))
      | (Some e, ew) \<Rightarrow>
          (Some \<lparr>WDSP_ANR.self = fresh w, WDSP_ANR.impl = e, WDSP_ANR.workBuf_p = Suc (fresh w),
                 WDSP_ANR.workBuf = replicate 960 0, WDSP_ANR.bufSize = 480\<rparr>,
           w2\<lparr>engines := ew\<rparr>))"
  unfolding w1_def w2_def r_def
  by (auto simp: wdsp_anr_create_def calloc_def free_def Let_def ANR_DLINE_SIZE_def
      split: list.splits bool.splits prod.splits option.splits)

lemma heap_ok_fresh:
  assumes "heap_ok w"
  shows "blocks w (fresh w) = None" and "blocks w (Suc (fresh w)) = None"
proof -
  have "a \<in> dom (blocks w) \<Longrightarrow> a < fresh w" for a
    using assms by (simp add: heap_ok_def)
  then have "fresh w \<notin> dom (blocks w)" "Suc (fresh w) \<notin> dom (blocks w)"
    by (fastforce, fastforce)
  then show "blocks w (fresh w) = None" and "blocks w (Suc (fresh w)) = None"
    by (simp_all add: domIff)
qed

lemma calloc_blocks:
  "blocks (snd (calloc n w)) =
     (if fst (calloc n w) = None then blocks w else (blocks w)(fresh w \<mapsto> n))"
  by (auto simp: calloc_def split: list.splits bool.splits)

lemma calloc_fresh:
  "fst (calloc n w) \<noteq> None \<Longrightarrow> fresh (snd (calloc n w)) = Suc (fresh w)"
  by (auto simp: calloc_def split: list.splits bool.splits)

lemma calloc_engines [simp]: "engines (snd (calloc n w)) = engines w"
  by (auto simp: calloc_def split: list.splits bool.splits)

lemma free_blocks [simp]: "blocks (free p w) = (blocks w)(p := None)"
  by (simp add: free_def)

lemma blocks_engines_update [simp]: "blocks (w\<lparr>engines := ew\<rparr>) = blocks w"
  by simp

lemma release_one:
  "m a = None \<Longrightarrow> (m(a \<mapsto> n))(a := None) = m"
  by (auto simp: fun_eq_iff)

lemma release_two:
  "m a = None \<Longrightarrow> m b = None \<Longrightarrow> (m(a \<mapsto> n, b \<mapsto> k))(b := None, a := None) = m"
  by (auto simp: fun_eq_iff)

lemma emnr_create_spec:
  assumes "heap_ok w"
  shows
   "(fst (wdsp_emnr_create create_emnr sampleRate w) = None \<longleftrightarrow>
       fst (calloc 1 w) = None \<or> fst (calloc 960 (snd (calloc 1 w))) = None \<or>
       fst (create_emnr 1 0 480 (Suc (fresh w)) (Suc (fresh w)) 1920 4 sampleRate 0 1.0 2 0 1
              (engines w)) = None) \<and>
    (fst (wdsp_emnr_create create_emnr sampleRate w) = None \<longrightarrow>
       blocks (snd (wdsp_emnr_create create_emnr sampleRate w)) = blocks w) \<and>
    (\<forall>c. fst (wdsp_emnr_create create_emnr sampleRate w) = Some c \<longrightarrow>
       blocks (snd (wdsp_emnr_create create_emnr sampleRate w))
         = (blocks w)(WDSP_EMNR.self c \<mapsto> 1, WDSP_EMNR.workBuf_p c \<mapsto> 960) \<and>
       WDSP_EMNR.self c \<notin> dom (blocks w) \<and> WDSP_EMNR.workBuf_p c \<notin> dom (blocks w) \<and>
       WDSP_EMNR.self c \<noteq> WDSP_EMNR.workBuf_p c \<and>
       WDSP_EMNR.bufSize c = 480 \<and> WDSP_EMNR.workBuf c = replicate 960 0 \<and>
       fst (create_emnr 1 0 480 (WDSP_EMNR.workBuf_p c) (WDSP_EMNR.workBuf_p c) 1920 4 sampleRate
              0 1.0 2 0 1 (engines w)) = Some (WDSP_EMNR.impl c))"
proof -
  note f = heap_ok_fresh[OF assms]
  define w1 where "w1 = snd (calloc 1 w)"
  define w2 where "w2 = snd (calloc 960 w1)"
  define r where "r = create_emnr 1 0 480 (Suc (fresh w)) (Suc (fresh w)) 1920 4 sampleRate
      0 1.0 2 0 1 (engines w)"
  note cases = emnr_create_cases[of create_emnr sampleRate w, folded w1_def w2_def r_def]
  show ?thesis
  proof (cases "fst (calloc 1 w) = None")
    case True
    then show ?thesis
      unfolding cases using calloc_blocks[of 1 w] by (simp add: w1_def)
  next
    case g1: False
    have b1: "blocks w1 = (blocks w)(fresh w \<mapsto> 1)" "fresh w1 = Suc (fresh w)"
      using g1 calloc_blocks[of 1 w] calloc_fresh[of 1 w] by (auto simp: w1_def)
    show ?thesis
    proof (cases "fst (calloc 960 w1) = None")
      case True
      then have "blocks w2 = (blocks w)(fresh w \<mapsto> 1)"
        using calloc_blocks[of 960 w1] b1 by (auto simp: w2_def)
      then show ?thesis
        unfolding cases w1_def[symmetric] w2_def[symmetric] using g1 True f
        by (auto simp: release_one)
    next
      case g2: False
      have b2: "blocks w2 = (blocks w)(fresh w \<mapsto> 1, Suc (fresh w) \<mapsto> 960)"
        using g2 calloc_blocks[of 960 w1] b1 by (auto simp: w2_def)
      obtain res ew where r: "r = (res, ew)" by (cases r)
      have rr: "fst (create_emnr 1 0 480 (Suc (fresh w)) (Suc (fresh w)) 1920 4 sampleRate
          0 1.0 2 0 1 (engines w)) = res"
        using r by (simp add: r_def)
      show ?thesis
      proof (cases res)
        case None
        then show ?thesis
          unfolding cases w1_def[symmetric] w2_def[symmetric] r_def[symmetric]
          using g1 g2 r rr f b2 by (auto simp: release_two)
      next
        case (Some e)
        then show ?thesis
          unfolding cases w1_def[symmetric] w2_def[symmetric] r_def[symmetric]
          using g1 g2 r rr f b2 by (auto simp: domIff)
      qed
    qed
  qed
qed

lemma anr_create_spec:
  assumes "heap_ok w"
  shows
   "(fst (wdsp_anr_create create_anr sampleRate w) = None \<longleftrightarrow>
       fst (calloc 1 w) = None \<or> fst (calloc 960 (snd (calloc 1 w))) = None \<or>
       fst (create_anr 1 0 480 (Suc (fresh w)) (Suc (fresh w)) 2048 64 16
              0.0001 0.1 120.0 120.0 200.0 0.001 (6.25 / 10 ^ 10) 1.0 3.0
              (engines w)) = None) \<and>
    (fst (wdsp_anr_create create_anr sampleRate w) = None \<longrightarrow>
       blocks (snd (wdsp_anr_create create_anr sampleRate w)) = blocks w) \<and>
    (\<forall>c. fst (wdsp_anr_create create_anr sampleRate w) = Some c \<longrightarrow>
       blocks (snd (wdsp_anr_create create_anr sampleRate w))
         = (blocks w)(WDSP_ANR.self c \<mapsto> 1, WDSP_ANR.workBuf_p c \<mapsto> 960) \<and>
       WDSP_ANR.self c \<notin> dom (blocks w) \<and> WDSP_ANR.workBuf_p c \<notin> dom (blocks w) \<and>
       WDSP_ANR.self c \<noteq> WDSP_ANR.workBuf_p c \<and>
       WDSP_ANR.bufSize c = 480 \<and> WDSP_ANR.workBuf c = replicate 960 0 \<and>
       fst (create_anr 1 0 480 (WDSP_ANR.workBuf_p c) (WDSP_ANR.workBuf_p c) 2048 64 16
              0.0001 0.1 120.0 120.0 200.0 0.001 (6.25 / 10 ^ 10) 1.0 3.0
              (engines w)) = Some (WDSP_ANR.impl c))"
proof -
  note f = heap_ok_fresh[OF assms]
  define w1 where "w1 = snd (calloc 1 w)"
  define w2 where "w2 = snd (calloc 960 w1)"
  define r where "r = create_anr 1 0 480 (Suc (fresh w)) (Suc (fresh w)) 2048 64 16
      0.0001 0.1 120.0 120.0 200.0 0.001 (6.25 / 10 ^ 10) 1.0 3.0 (engines w)"
  note cases = anr_create_cases[of create_anr sampleRate w, folded w1_def w2_def r_def]
  show ?thesis
  proof (cases "fst (calloc 1 w) = None")
    case True
    then show ?thesis
      unfolding cases using calloc_blocks[of 1 w] by (simp add: w1_def)
  next
    case g1: False
    have b1: "blocks w1 = (blocks w)(fresh w \<mapsto> 1)" "fresh w1 = Suc (fresh w)"
      using g1 calloc_blocks[of 1 w] calloc_fresh[of 1 w] by (auto simp: w1_def)
    show ?thesis
    proof (cases "fst (calloc 960 w1) = None")
      case True
      then have "blocks w2 = (blocks w)(fresh w \<mapsto> 1)"
        using calloc_blocks[of 960 w1] b1 by (auto simp: w2_def)
      then show ?thesis
        unfolding cases w1_def[symmetric] w2_def[symmetric] using g1 True f
        by (auto simp: release_one)
    next
      case g2: False
      have b2: "blocks w2 = (blocks w)(fresh w \<mapsto> 1, Suc (fresh w) \<mapsto> 960)"
        using g2 calloc_blocks[of 960 w1] b1 by (auto simp: w2_def)
      obtain res ew where r: "r = (res, ew)" by (cases r)
      have rr: "fst (create_anr 1 0 480 (Suc (fresh w)) (Suc (fresh w)) 2048 64 16
          0.0001 0.1 120.0 120.0 200.0 0.001 (6.25 / 10 ^ 10) 1.0 3.0 (engines w)) = res"
        using r by (simp add: r_def)
      show ?thesis
      proof (cases res)
        case None
        then show ?thesis
          unfolding cases w1_def[symmetric] w2_def[symmetric] r_def[symmetric]
          using g1 g2 r rr f b2 by (auto simp: release_two)
      next
        case (Some e)
        then show ?thesis
          unfolding cases w1_def[symmetric] w2_def[symmetric] r_def[symmetric]
          using g1 g2 r rr f b2 by (auto simp: domIff)
      qed
    qed
  qed
qed

lemma emnr_created:
  assumes "wdsp_emnr_create create_emnr sampleRate w = (Some c, w')"
  shows "WDSP_EMNR.bufSize c = 480" and "WDSP_EMNR.workBuf c = replicate 960 0"
  using assms unfolding emnr_create_cases
  by (auto split: if_splits prod.splits option.splits)

lemma anr_created:
  assumes "wdsp_anr_create create_anr sampleRate w = (Some c, w')"
  shows "WDSP_ANR.bufSize c = 480" and "WDSP_ANR.workBuf c = replicate 960 0"
  using assms unfolding anr_create_cases
  by (auto split: if_splits prod.splits option.splits)

lemma emnr_create_uses_sample_rate:
  assumes "r1 \<noteq> r2"
  shows "\<exists>create_emnr (w :: unit world).
    fst (wdsp_emnr_create create_emnr r1 w :: (int, real) WDSP_EMNR option \<times> unit world)
      \<noteq> fst (wdsp_emnr_create create_emnr r2 w)"
proof -
  let ?ce = "\<lambda>(_::int) (_::int) (_::int) (_::addr) (_::addr) (_::int) (_::int) (rate::int) (_::int)
      (_::real) (_::int) (_::int) (_::int) (ew::unit). (Some rate, ew)"
  let ?w = "\<lparr>blocks = Map.empty, fresh = 0, refusals = [], engines = ()\<rparr>"
  have "fst (wdsp_emnr_create ?ce r1 ?w :: (int, real) WDSP_EMNR option \<times> unit world)
      \<noteq> fst (wdsp_emnr_create ?ce r2 ?w)"
    using assms by (simp add: wdsp_emnr_create_def calloc_def Let_def)
  then show ?thesis by blast
qed

subsection \<open>Destruction of a handle\<close>

lemma destroy_releases:
  "blocks (wdsp_emnr_destroy destroy_emnr (Some c) w)
     = (blocks w)(WDSP_EMNR.workBuf_p c := None, WDSP_EMNR.self c := None)"
  "engines (wdsp_emnr_destroy destroy_emnr (Some c) w) = destroy_emnr (WDSP_EMNR.impl c) (engines w)"
  "blocks (wdsp_anr_destroy destroy_anr (Some a) w)
     = (blocks w)(WDSP_ANR.workBuf_p a := None, WDSP_ANR.self a := None)"
  "engines (wdsp_anr_destroy destroy_anr (Some a) w) = destroy_anr (WDSP_ANR.impl a) (engines w)"
  by (simp_all add: wdsp_emnr_destroy_def wdsp_anr_destroy_def free_def)

lemma create_then_destroy_leaves_no_block:
  fixes w :: "'w world" and c :: "('e, 'd::zero) WDSP_EMNR" and a :: "('k, 'd::zero) WDSP_ANR"
  assumes "heap_ok w"
  shows "wdsp_emnr_create create_emnr sampleRate w = (Some c, w') \<Longrightarrow>
           blocks (wdsp_emnr_destroy destroy_emnr (Some c) w') = blocks w"
    and "wdsp_anr_create create_anr sampleRate w = (Some a, w'') \<Longrightarrow>
           blocks (wdsp_anr_destroy destroy_anr (Some a) w'') = blocks w"
proof -
  show "blocks (wdsp_emnr_destroy destroy_emnr (Some c) w') = blocks w"
    if cr: "wdsp_emnr_create create_emnr sampleRate w = (Some c, w')"
  proof -
    have "fst (wdsp_emnr_create create_emnr sampleRate w) = Some c"
      and w': "snd (wdsp_emnr_create create_emnr sampleRate w
                 :: ('e, 'd) WDSP_EMNR option \<times> 'w world) = w'"
      using cr by simp_all
    then have b: "blocks w' = (blocks w)(WDSP_EMNR.self c \<mapsto> 1, WDSP_EMNR.workBuf_p c \<mapsto> 960)"
      and n: "blocks w (WDSP_EMNR.self c) = None" "blocks w (WDSP_EMNR.workBuf_p c) = None"
      using emnr_create_spec[OF assms, of create_emnr sampleRate] by (auto simp: domIff)
    show ?thesis unfolding destroy_releases b using n by (rule release_two)
  qed
  show "blocks (wdsp_anr_destroy destroy_anr (Some a) w'') = blocks w"
    if cr: "wdsp_anr_create create_anr sampleRate w = (Some a, w'')"
  proof -
    have "fst (wdsp_anr_create create_anr sampleRate w) = Some a"
      and w': "snd (wdsp_anr_create create_anr sampleRate w
                 :: ('k, 'd) WDSP_ANR option \<times> 'w world) = w''"
      using cr by simp_all
    then have b: "blocks w'' = (blocks w)(WDSP_ANR.self a \<mapsto> 1, WDSP_ANR.workBuf_p a \<mapsto> 960)"
      and n: "blocks w (WDSP_ANR.self a) = None" "blocks w (WDSP_ANR.workBuf_p a) = None"
      using anr_create_spec[OF assms, of create_anr sampleRate] by (auto simp: domIff)
    show ?thesis unfolding destroy_releases b using n by (rule release_two)
  qed
qed

section \<open>The constructors make ready handles, and processing keeps them ready\<close>

lemma emnr_loop_workBuf_length:
  "emnr_loop x f2d d2f ctx inOut F offset = Some (Inr (ctx', out)) \<Longrightarrow>
   in_place x \<Longrightarrow> 0 < WDSP_EMNR.bufSize ctx \<Longrightarrow>
   length (WDSP_EMNR.workBuf ctx') = length (WDSP_EMNR.workBuf ctx)"
proof (induction "nat (F - offset)" arbitrary: ctx inOut offset rule: less_induct)
  case less
  show ?case
  proof (cases "offset < F")
    case False
    then show ?thesis using less.prems by (simp add: emnr_loop_done)
  next
    case True
    define c where "c = min (F - offset) (WDSP_EMNR.bufSize ctx)"
    have c: "0 < c" "offset + c \<le> F" using True less.prems by (auto simp: c_def)
    have no: "\<not> int (length inOut) < offset + c"
      using emnr_loop_overrun[where x = x and ctx = ctx, OF True c_def c(1), of inOut f2d d2f]
        less.prems(1) by auto
    define wb0 where "wb0 = zero_pad (WDSP_EMNR.bufSize ctx) c
        (pack_iq f2d inOut offset c 0 (WDSP_EMNR.workBuf ctx))"
    obtain e' wb' where x: "x (WDSP_EMNR.impl ctx) wb0 = (e', wb')" by fastforce
    have len: "length wb' = length (WDSP_EMNR.workBuf ctx)"
      using less.prems(2) x unfolding in_place_def wb0_def
      by (metis snd_conv pack_iq_length zero_pad_length)
    let ?ctx = "ctx\<lparr>WDSP_EMNR.impl := e', WDSP_EMNR.workBuf := wb'\<rparr>"
    let ?io = "extract_real d2f wb' offset c 0 inOut"
    have step: "emnr_loop x f2d d2f ctx inOut F offset = emnr_loop x f2d d2f ?ctx ?io F (offset + c)"
      using no x unfolding wb0_def
      by (intro emnr_loop_step[where x = x and ctx = ctx, OF True c_def]) auto
    have m: "nat (F - (offset + c)) < nat (F - offset)" using c True by linarith
    have "length (WDSP_EMNR.workBuf ctx') = length (WDSP_EMNR.workBuf ?ctx)"
      using less.prems unfolding step by (intro less.hyps[OF m]) auto
    then show ?thesis using len by simp
  qed
qed

lemma emnr_process_keeps_ready:
  assumes "emnr_ready ctx" and "in_place x"
    and "wdsp_emnr_process x f2d d2f ctx inOut F = Some (Inr (ctx', out))"
  shows "emnr_ready ctx'"
proof -
  have p: "0 < WDSP_EMNR.bufSize ctx" using assms(1) by (simp add: emnr_ready_def)
  have r: "emnr_loop x f2d d2f ctx inOut F 0 = Some (Inr (ctx', out))"
    using assms(3) by (simp add: wdsp_emnr_process_def)
  show ?thesis
    using assms(1) emnr_loop_workBuf_length[OF r assms(2) p] emnr_loop_frame[OF r p]
    by (simp add: emnr_ready_def)
qed

lemma anr_process_keeps_ready:
  assumes "anr_ready ctx" and "in_place x"
    and "wdsp_anr_process x f2d d2f ctx inOut F = Some (Inr (ctx', out))"
  shows "anr_ready ctx'"
proof -
  have p: "0 < WDSP_ANR.bufSize ctx" using assms(1) by (simp add: anr_ready_def)
  have r: "emnr_ready (as_emnr ctx)" using assms(1) by (simp add: anr_ready_def emnr_ready_def)
  have q: "wdsp_emnr_process x f2d d2f (as_emnr ctx) inOut F = Some (Inr (as_emnr ctx', out))"
    using assms(3) p by (simp add: wdsp_emnr_process_def wdsp_anr_process_def anr_loop_via)
  have "emnr_ready (as_emnr ctx')" using r assms(2) q by (rule emnr_process_keeps_ready)
  then show ?thesis by (simp add: anr_ready_def emnr_ready_def)
qed

lemma emnr_created_ready:
  "wdsp_emnr_create create_emnr sampleRate w = (Some c, w') \<Longrightarrow> emnr_ready c"
  using emnr_created[of create_emnr sampleRate w c w'] by (simp add: emnr_ready_def)

lemma anr_created_ready:
  "wdsp_anr_create create_anr sampleRate w = (Some c, w') \<Longrightarrow> anr_ready c"
  using anr_created[of create_anr sampleRate w c w'] by (simp add: anr_ready_def)

section \<open>Handles constructed independently\<close>

text \<open>
  The engine state in a handle is the one the engine constructor returned for the wrapper's
  fixed arguments, the address of the handle's own scratch array (at the first free address
  but one), and the state of the engine library at the call.
\<close>

lemma emnr_created_engine:
  assumes "wdsp_emnr_create create_emnr sampleRate w = (Some c, w')"
  shows "fst (create_emnr 1 0 480 (Suc (fresh w)) (Suc (fresh w)) 1920 4 sampleRate 0 1.0 2 0 1
            (engines w)) = Some (WDSP_EMNR.impl c)"
  using assms unfolding emnr_create_cases
  by (auto split: if_splits prod.splits option.splits)

lemma anr_created_engine:
  assumes "wdsp_anr_create create_anr sampleRate w = (Some c, w')"
  shows "fst (create_anr 1 0 480 (Suc (fresh w)) (Suc (fresh w)) 2048 64 16
            0.0001 0.1 120.0 120.0 200.0 0.001 (6.25 / 10 ^ 10) 1.0 3.0
            (engines w)) = Some (WDSP_ANR.impl c)"
  using assms unfolding anr_create_cases
  by (auto split: if_splits prod.splits option.splits)

text \<open>
  Two handles of one constructor that hold the same engine state differ in their two addresses
  only, so their sessions agree.
\<close>

lemma emnr_instances_with_equal_engines_agree:
  assumes "wdsp_emnr_create create_emnr sampleRate w1 = (Some c1, w1')"
    and "wdsp_emnr_create create_emnr sampleRate w2 = (Some c2, w2')"
    and "WDSP_EMNR.impl c1 = WDSP_EMNR.impl c2"
  shows "emnr_run xemnr f2d d2f c1 calls = emnr_run xemnr f2d d2f c2 calls"
proof -
  note e1 = emnr_created[OF assms(1)] and e2 = emnr_created[OF assms(2)]
  have q12: "c2 = c1\<lparr>WDSP_EMNR.self := WDSP_EMNR.self c2,
      WDSP_EMNR.workBuf_p := WDSP_EMNR.workBuf_p c2\<rparr>"
    using e1 e2 assms(3) by (cases c1, cases c2) simp
  have p1: "0 < WDSP_EMNR.bufSize c1" using e1(1) by simp
  have "emnr_run xemnr f2d d2f c2 calls = emnr_run xemnr f2d d2f c1 calls"
    by (subst q12) (rule emnr_run_readdr[OF p1])
  then show ?thesis by simp
qed

lemma anr_instances_with_equal_engines_agree:
  assumes "wdsp_anr_create create_anr sampleRate w3 = (Some c3, w3')"
    and "wdsp_anr_create create_anr sampleRate w4 = (Some c4, w4')"
    and "WDSP_ANR.impl c3 = WDSP_ANR.impl c4"
  shows "anr_run xanr f2d d2f c3 calls = anr_run xanr f2d d2f c4 calls"
proof -
  note a3 = anr_created[OF assms(1)] and a4 = anr_created[OF assms(2)]
  have q34: "as_emnr c4 = (as_emnr c3)\<lparr>WDSP_EMNR.self := WDSP_ANR.self c4,
      WDSP_EMNR.workBuf_p := WDSP_ANR.workBuf_p c4\<rparr>"
    using a3 a4 assms(3) by (cases c3, cases c4) (simp add: as_emnr_def)
  have p3: "0 < WDSP_EMNR.bufSize (as_emnr c3)" using a3(1) by simp
  have "emnr_run xanr f2d d2f (as_emnr c4) calls = emnr_run xanr f2d d2f (as_emnr c3) calls"
    by (subst q34) (rule emnr_run_readdr[OF p3])
  then have "anr_run xanr f2d d2f c4 calls = anr_run xanr f2d d2f c3 calls"
    using a3(1) a4(1) by (simp add: anr_run_emnr)
  then show ?thesis by simp
qed

text \<open>
  A session of one call on one frame: a single engine invocation, whose first real slot is
  what the caller gets back.
\<close>

lemma emnr_run_one_frame:
  assumes "0 < WDSP_EMNR.bufSize ctx"
    and "x (WDSP_EMNR.impl ctx)
           (zero_pad (WDSP_EMNR.bufSize ctx) 1 (pack_iq f2d [v] 0 1 0 (WDSP_EMNR.workBuf ctx)))
         = (e', wb')"
  shows "emnr_run x f2d d2f ctx [([v], 1)] = [Some (Inr [d2f (wb' ! 0)])]"
proof -
  have c: "(1::int) = min (1 - 0) (WDSP_EMNR.bufSize ctx)" using assms(1) by simp
  have ext: "extract_real d2f wb' 0 1 0 [v] = [d2f (wb' ! 0)]"
    by (subst extract_real.simps, subst extract_real.simps) simp
  have "emnr_loop x f2d d2f ctx [v] 1 0 =
      emnr_loop x f2d d2f (ctx\<lparr>WDSP_EMNR.impl := e', WDSP_EMNR.workBuf := wb'\<rparr>)
        (extract_real d2f wb' 0 1 0 [v]) 1 (0 + 1)"
    by (rule emnr_loop_step[where x = x and ctx = ctx and f2d = f2d and inOut = "[v]"
          and offset = 0 and F = 1 and c = 1 and e' = e' and wb' = wb', OF _ c _ assms(2)])
       simp_all
  also have "\<dots> = Some (Inr (ctx\<lparr>WDSP_EMNR.impl := e', WDSP_EMNR.workBuf := wb'\<rparr>,
      [d2f (wb' ! 0)]))"
    unfolding ext by (rule emnr_loop_done) simp
  finally show ?thesis by (simp add: wdsp_emnr_process_def)
qed

section \<open>The model at work\<close>

text \<open>
  A run evaluated from the definitions: the chunk loop in miniature, with a block size of 2
  and a recording engine that maps every slot \<open>v\<close> to \<open>10 * v + 7\<close>. Three frames of a
  buffer of five make two chunks, the second one zero-padded, and the last two samples of
  the buffer stay.
\<close>

lemma chunk_loop_in_miniature:
  "wdsp_emnr_process (recording (\<lambda>e wb. (Suc e, map (\<lambda>v. v * 10 + 7) wb))) int nat
     \<lparr>WDSP_EMNR.self = 0, WDSP_EMNR.impl = (0, []), WDSP_EMNR.workBuf_p = 1,
      WDSP_EMNR.workBuf = [9, 9, 9, 9], WDSP_EMNR.bufSize = 2\<rparr> [1, 2, 3, 4, 5] 3
   = Some (Inr (\<lparr>WDSP_EMNR.self = 0,
                  WDSP_EMNR.impl = (2, [([1, 0, 2, 0], [17, 7, 27, 7]), ([3, 0, 0, 0], [37, 7, 7, 7])]),
                  WDSP_EMNR.workBuf_p = 1, WDSP_EMNR.workBuf = [37, 7, 7, 7],
                  WDSP_EMNR.bufSize = 2\<rparr>, [17, 27, 37, 4, 5]))"
  by code_simp

section \<open>The claims\<close>

text \<open>
  C1. When the frame count \<open>F\<close> (at most the length of the caller's buffer) is not a
  multiple of the block size 480, the last engine invocation of \<^verbatim>\<open>process\<close> (both variants)
  is on the final chunk of \<open>F mod 480\<close> samples, which starts at \<open>F - F mod 480\<close>: on entry
  the scratch array holds those samples in its first \<open>F mod 480\<close> real slots and zero in the
  remaining \<open>480 - F mod 480\<close> real slots and in every imaginary slot; after the call only the
  first \<open>F mod 480\<close> real slots of the engine's output are written back, to the positions
  \<open>F - F mod 480 \<dots> F - 1\<close> of the caller's buffer, and nothing from position \<open>F\<close> on is
  written.
\<close>

theorem final_partial_chunk_is_zero_padded:
  assumes "emnr_ready ectx" and "anr_ready actx"
    and "in_place xemnr" and "in_place xanr"
    and "0 \<le> frameCount" and "frameCount \<le> int (length inOut)"
    and "frameCount mod 480 \<noteq> 0"
    and "WDSP_EMNR.impl ectx = (e1, h1)" and "WDSP_ANR.impl actx = (e2, h2)"
  shows "(\<exists>ctx' out e' new win wout.
            wdsp_emnr_process (recording xemnr) f2d d2f ectx inOut frameCount
              = Some (Inr (ctx', out))
            \<and> WDSP_EMNR.impl ctx' = (e', h1 @ new) \<and> new \<noteq> [] \<and> last new = (win, wout)
            \<and> holds_chunk f2d 480 inOut (frameCount - frameCount mod 480)
                 (frameCount mod 480) win
            \<and> written_back d2f out (frameCount - frameCount mod 480) (frameCount mod 480) wout
            \<and> drop (nat frameCount) out = drop (nat frameCount) inOut) \<and>
         (\<exists>ctx' out e' new win wout.
            wdsp_anr_process (recording xanr) f2d d2f actx inOut frameCount
              = Some (Inr (ctx', out))
            \<and> WDSP_ANR.impl ctx' = (e', h2 @ new) \<and> new \<noteq> [] \<and> last new = (win, wout)
            \<and> holds_chunk f2d 480 inOut (frameCount - frameCount mod 480)
                 (frameCount mod 480) win
            \<and> written_back d2f out (frameCount - frameCount mod 480) (frameCount mod 480) wout
            \<and> drop (nat frameCount) out = drop (nat frameCount) inOut)"
proof -
  note ix = last_chunk_index[OF assms(5,7)]
  have e: "0 < WDSP_EMNR.bufSize ectx" "WDSP_EMNR.bufSize ectx = 480"
    "length (WDSP_EMNR.workBuf ectx) = nat (2 * 480)"
    using assms(1) by (simp_all add: emnr_ready_def)
  have a: "0 < WDSP_ANR.bufSize actx" "WDSP_ANR.bufSize actx = 480"
    "length (WDSP_ANR.workBuf actx) = nat (2 * 480)"
    using assms(2) by (simp_all add: anr_ready_def)
  obtain c1 o1 where r1:
    "emnr_loop (recording xemnr) f2d d2f ectx inOut frameCount 0 = Some (Inr (c1, o1))"
    using emnr_loop_returns[OF e(1) assms(6), of "recording xemnr" f2d d2f 0] by blast
  obtain c2 o2 where r2:
    "anr_loop (recording xanr) f2d d2f actx inOut frameCount 0 = Some (Inr (c2, o2))"
    using anr_loop_returns[OF a(1) assms(6), of "recording xanr" f2d d2f 0] by blast
  obtain e1' n1 where n1: "WDSP_EMNR.impl c1 = (e1', h1 @ n1)"
    "int (length n1) = frameCount div 480 + 1"
    using emnr_loop_count[OF r1 e(1) assms(8)] e(2) ix(1,2) by auto
  obtain e2' n2 where n2: "WDSP_ANR.impl c2 = (e2', h2 @ n2)"
    "int (length n2) = frameCount div 480 + 1"
    using anr_loop_count[OF r2 a(1) assms(9)] a(2) ix(1,2) by auto
  define k where "k = nat (frameCount div 480)"
  have k: "int k * 480 = frameCount - frameCount mod 480" using ix(3,4) by (simp add: k_def)
  have l1: "length n1 = k + 1" using n1(2) ix(3) unfolding k_def by linarith
  have l2: "length n2 = k + 1" using n2(2) ix(3) unfolding k_def by linarith
  have k1: "k < length n1" "n1 \<noteq> []" using l1 by auto
  have k2: "k < length n2" "n2 \<noteq> []" using l2 by auto
  have k1': "last n1 = n1 ! k" using last_conv_nth[OF k1(2)] l1 by simp
  have k2': "last n2 = n2 ! k" using last_conv_nth[OF k2(2)] l2 by simp
  have b1: "holds_chunk f2d 480 inOut (frameCount - frameCount mod 480) (frameCount mod 480)
        (fst (last n1))
      \<and> written_back d2f o1 (frameCount - frameCount mod 480) (frameCount mod 480)
        (snd (last n1))"
    using emnr_loop_blocks[OF r1 assms(3) _ e(2,3) _ assms(6,8) n1(1) k1(1)] k1' k ix(5)
    by simp
  have b2: "holds_chunk f2d 480 inOut (frameCount - frameCount mod 480) (frameCount mod 480)
        (fst (last n2))
      \<and> written_back d2f o2 (frameCount - frameCount mod 480) (frameCount mod 480)
        (snd (last n2))"
    using anr_loop_blocks[OF r2 assms(4) _ a(2,3) _ assms(6,9) n2(1) k2(1)] k2' k ix(5)
    by simp
  have f1: "drop (nat frameCount) o1 = drop (nat frameCount) inOut"
    using emnr_loop_frame[OF r1 e(1)] by (intro unchanged_outside_drop[of _ _ 0]) simp
  have f2: "drop (nat frameCount) o2 = drop (nat frameCount) inOut"
    using anr_loop_frame[OF r2 a(1)] by (intro unchanged_outside_drop[of _ _ 0]) simp
  have "\<exists>ctx' out e' new win wout.
          emnr_loop (recording xemnr) f2d d2f ectx inOut frameCount 0 = Some (Inr (ctx', out))
          \<and> WDSP_EMNR.impl ctx' = (e', h1 @ new) \<and> new \<noteq> [] \<and> last new = (win, wout)
          \<and> holds_chunk f2d 480 inOut (frameCount - frameCount mod 480)
               (frameCount mod 480) win
          \<and> written_back d2f out (frameCount - frameCount mod 480) (frameCount mod 480) wout
          \<and> drop (nat frameCount) out = drop (nat frameCount) inOut"
    using r1 n1(1) k1(2) b1 f1
    by (intro exI[of _ c1] exI[of _ o1] exI[of _ e1'] exI[of _ n1]
        exI[of _ "fst (last n1)"] exI[of _ "snd (last n1)"]) simp
  moreover have "\<exists>ctx' out e' new win wout.
          anr_loop (recording xanr) f2d d2f actx inOut frameCount 0 = Some (Inr (ctx', out))
          \<and> WDSP_ANR.impl ctx' = (e', h2 @ new) \<and> new \<noteq> [] \<and> last new = (win, wout)
          \<and> holds_chunk f2d 480 inOut (frameCount - frameCount mod 480)
               (frameCount mod 480) win
          \<and> written_back d2f out (frameCount - frameCount mod 480) (frameCount mod 480) wout
          \<and> drop (nat frameCount) out = drop (nat frameCount) inOut"
    using r2 n2(1) k2(2) b2 f2
    by (intro exI[of _ c2] exI[of _ o2] exI[of _ e2'] exI[of _ n2]
        exI[of _ "fst (last n2)"] exI[of _ "snd (last n2)"]) simp
  ultimately show ?thesis
    unfolding wdsp_emnr_process_def wdsp_anr_process_def by (rule conjI)
qed

theorem final_partial_chunk_is_zero_padded_witness:
  "emnr_ready \<lparr>WDSP_EMNR.self = 0, WDSP_EMNR.impl = ((), []), WDSP_EMNR.workBuf_p = 1,
               WDSP_EMNR.workBuf = replicate 960 (0::int), WDSP_EMNR.bufSize = 480\<rparr> \<and>
   anr_ready \<lparr>WDSP_ANR.self = 2, WDSP_ANR.impl = ((), []), WDSP_ANR.workBuf_p = 3,
              WDSP_ANR.workBuf = replicate 960 (0::int), WDSP_ANR.bufSize = 480\<rparr> \<and>
   in_place (\<lambda>(e::unit) (wb::int list). (e, wb)) \<and>
   (0::int) \<le> 481 \<and> (481::int) \<le> int (length (replicate 481 (7::nat))) \<and>
   (481::int) mod 480 \<noteq> 0 \<and>
   (\<exists>ctx' out e' new win wout.
      wdsp_emnr_process (recording (\<lambda>e wb. (e, wb))) int nat
        \<lparr>WDSP_EMNR.self = 0, WDSP_EMNR.impl = ((), []), WDSP_EMNR.workBuf_p = 1,
         WDSP_EMNR.workBuf = replicate 960 (0::int), WDSP_EMNR.bufSize = 480\<rparr>
        (replicate 481 7) 481 = Some (Inr (ctx', out))
      \<and> WDSP_EMNR.impl ctx' = (e', [] @ new) \<and> new \<noteq> [] \<and> last new = (win, wout)
      \<and> holds_chunk int 480 (replicate 481 7) 480 1 win
      \<and> written_back nat out 480 1 wout
      \<and> drop 481 out = drop 481 (replicate 481 7)) \<and>
   (\<exists>ctx' out e' new win wout.
      wdsp_anr_process (recording (\<lambda>e wb. (e, wb))) int nat
        \<lparr>WDSP_ANR.self = 2, WDSP_ANR.impl = ((), []), WDSP_ANR.workBuf_p = 3,
         WDSP_ANR.workBuf = replicate 960 (0::int), WDSP_ANR.bufSize = 480\<rparr>
        (replicate 481 7) 481 = Some (Inr (ctx', out))
      \<and> WDSP_ANR.impl ctx' = (e', [] @ new) \<and> new \<noteq> [] \<and> last new = (win, wout)
      \<and> holds_chunk int 480 (replicate 481 7) 480 1 win
      \<and> written_back nat out 480 1 wout
      \<and> drop 481 out = drop 481 (replicate 481 7))"
proof -
  have e: "emnr_ready \<lparr>WDSP_EMNR.self = 0, WDSP_EMNR.impl = ((), []), WDSP_EMNR.workBuf_p = 1,
               WDSP_EMNR.workBuf = replicate 960 (0::int), WDSP_EMNR.bufSize = 480\<rparr>"
    by (simp add: emnr_ready_def)
  have a: "anr_ready \<lparr>WDSP_ANR.self = 2, WDSP_ANR.impl = ((), []), WDSP_ANR.workBuf_p = 3,
              WDSP_ANR.workBuf = replicate 960 (0::int), WDSP_ANR.bufSize = 480\<rparr>"
    by (simp add: anr_ready_def)
  have p: "in_place (\<lambda>(e::unit) (wb::int list). (e, wb))" by (simp add: in_place_def)
  have n: "(0::int) \<le> 481" "(481::int) \<le> int (length (replicate 481 (7::nat)))"
    "(481::int) mod 480 \<noteq> 0" by simp_all
  have i1: "WDSP_EMNR.impl \<lparr>WDSP_EMNR.self = 0, WDSP_EMNR.impl = ((), []),
      WDSP_EMNR.workBuf_p = 1, WDSP_EMNR.workBuf = replicate 960 (0::int),
      WDSP_EMNR.bufSize = 480\<rparr> = ((), [])" by simp
  have i2: "WDSP_ANR.impl \<lparr>WDSP_ANR.self = 2, WDSP_ANR.impl = ((), []),
      WDSP_ANR.workBuf_p = 3, WDSP_ANR.workBuf = replicate 960 (0::int),
      WDSP_ANR.bufSize = 480\<rparr> = ((), [])" by simp
  have s: "(481::int) mod 480 = 1" "(481::int) - 1 = 480" "nat 481 = 481" by simp_all
  show ?thesis
    using e a p n
      final_partial_chunk_is_zero_padded[OF e a p p n i1 i2, of int nat, unfolded s]
    by blast
qed

text \<open>
  C2. For every frame count \<open>F \<ge> 0\<close> (at most the length of the caller's buffer),
  \<^verbatim>\<open>process\<close> of both variants invokes the engine exactly \<open>\<lceil>F / 480\<rceil>\<close> times, once per
  chunk: the list of invocations a recording engine keeps grows by that many entries. For
  960 samples of silence that is exactly two invocations, as the instance after the theorem
  shows.
\<close>

theorem process_invokes_engine_once_per_chunk:
  assumes "emnr_ready ectx" and "anr_ready actx"
    and "0 \<le> frameCount" and "frameCount \<le> int (length inOut)"
    and "WDSP_EMNR.impl ectx = (e1, h1)" and "WDSP_ANR.impl actx = (e2, h2)"
  shows "(\<exists>ctx' out e' new.
            wdsp_emnr_process (recording xemnr) f2d d2f ectx inOut frameCount
              = Some (Inr (ctx', out))
            \<and> WDSP_EMNR.impl ctx' = (e', h1 @ new)
            \<and> int (length new) = \<lceil>real_of_int frameCount / 480\<rceil>) \<and>
         (\<exists>ctx' out e' new.
            wdsp_anr_process (recording xanr) f2d d2f actx inOut frameCount
              = Some (Inr (ctx', out))
            \<and> WDSP_ANR.impl ctx' = (e', h2 @ new)
            \<and> int (length new) = \<lceil>real_of_int frameCount / 480\<rceil>)"
proof -
  have e: "0 < WDSP_EMNR.bufSize ectx" "WDSP_EMNR.bufSize ectx = 480"
    using assms(1) by (simp_all add: emnr_ready_def)
  have a: "0 < WDSP_ANR.bufSize actx" "WDSP_ANR.bufSize actx = 480"
    using assms(2) by (simp_all add: anr_ready_def)
  obtain c1 o1 where r1:
    "emnr_loop (recording xemnr) f2d d2f ectx inOut frameCount 0 = Some (Inr (c1, o1))"
    using emnr_loop_returns[OF e(1) assms(4), of "recording xemnr" f2d d2f 0] by blast
  obtain c2 o2 where r2:
    "anr_loop (recording xanr) f2d d2f actx inOut frameCount 0 = Some (Inr (c2, o2))"
    using anr_loop_returns[OF a(1) assms(4), of "recording xanr" f2d d2f 0] by blast
  obtain e1' n1 where n1: "WDSP_EMNR.impl c1 = (e1', h1 @ n1)"
    "int (length n1) = (if 0 < frameCount then (frameCount - 1) div 480 + 1 else 0)"
    using emnr_loop_count[OF r1 e(1) assms(5)] e(2) by auto
  obtain e2' n2 where n2: "WDSP_ANR.impl c2 = (e2', h2 @ n2)"
    "int (length n2) = (if 0 < frameCount then (frameCount - 1) div 480 + 1 else 0)"
    using anr_loop_count[OF r2 a(1) assms(6)] a(2) by auto
  show ?thesis
    unfolding wdsp_emnr_process_def wdsp_anr_process_def
    using r1 r2 n1 n2 chunks_ceiling[OF assms(3)] by simp
qed

theorem process_invokes_engine_once_per_chunk_witness:
  "emnr_ready \<lparr>WDSP_EMNR.self = 0, WDSP_EMNR.impl = ((), []), WDSP_EMNR.workBuf_p = 1,
               WDSP_EMNR.workBuf = replicate 960 (0::int), WDSP_EMNR.bufSize = 480\<rparr> \<and>
   anr_ready \<lparr>WDSP_ANR.self = 2, WDSP_ANR.impl = ((), []), WDSP_ANR.workBuf_p = 3,
              WDSP_ANR.workBuf = replicate 960 (0::int), WDSP_ANR.bufSize = 480\<rparr> \<and>
   (0::int) \<le> 960 \<and> (960::int) \<le> int (length (replicate 960 (0::nat))) \<and>
   (\<exists>ctx' out e' new.
      wdsp_emnr_process (recording (\<lambda>e wb. (e, wb))) int nat
        \<lparr>WDSP_EMNR.self = 0, WDSP_EMNR.impl = ((), []), WDSP_EMNR.workBuf_p = 1,
         WDSP_EMNR.workBuf = replicate 960 (0::int), WDSP_EMNR.bufSize = 480\<rparr>
        (replicate 960 0) 960 = Some (Inr (ctx', out))
      \<and> WDSP_EMNR.impl ctx' = (e', [] @ new) \<and> int (length new) = 2) \<and>
   (\<exists>ctx' out e' new.
      wdsp_anr_process (recording (\<lambda>e wb. (e, wb))) int nat
        \<lparr>WDSP_ANR.self = 2, WDSP_ANR.impl = ((), []), WDSP_ANR.workBuf_p = 3,
         WDSP_ANR.workBuf = replicate 960 (0::int), WDSP_ANR.bufSize = 480\<rparr>
        (replicate 960 0) 960 = Some (Inr (ctx', out))
      \<and> WDSP_ANR.impl ctx' = (e', [] @ new) \<and> int (length new) = 2)"
proof -
  have e: "emnr_ready \<lparr>WDSP_EMNR.self = 0, WDSP_EMNR.impl = ((), []), WDSP_EMNR.workBuf_p = 1,
               WDSP_EMNR.workBuf = replicate 960 (0::int), WDSP_EMNR.bufSize = 480\<rparr>"
    by (simp add: emnr_ready_def)
  have a: "anr_ready \<lparr>WDSP_ANR.self = 2, WDSP_ANR.impl = ((), []), WDSP_ANR.workBuf_p = 3,
              WDSP_ANR.workBuf = replicate 960 (0::int), WDSP_ANR.bufSize = 480\<rparr>"
    by (simp add: anr_ready_def)
  have n: "(0::int) \<le> 960" "(960::int) \<le> int (length (replicate 960 (0::nat)))" by simp_all
  have i1: "WDSP_EMNR.impl \<lparr>WDSP_EMNR.self = 0, WDSP_EMNR.impl = ((), []),
      WDSP_EMNR.workBuf_p = 1, WDSP_EMNR.workBuf = replicate 960 (0::int),
      WDSP_EMNR.bufSize = 480\<rparr> = ((), [])" by simp
  have i2: "WDSP_ANR.impl \<lparr>WDSP_ANR.self = 2, WDSP_ANR.impl = ((), []),
      WDSP_ANR.workBuf_p = 3, WDSP_ANR.workBuf = replicate 960 (0::int),
      WDSP_ANR.bufSize = 480\<rparr> = ((), [])" by simp
  have c: "\<lceil>real_of_int 960 / 480\<rceil> = 2" by simp
  show ?thesis
    using e a n
      process_invokes_engine_once_per_chunk[OF e a n i1 i2, of "\<lambda>e wb. (e, wb)" int nat
        "\<lambda>e wb. (e, wb)", unfolded c]
    by blast
qed

text \<open>
  C3. For every frame count \<open>F \<ge> 0\<close> and every caller's buffer of length at least \<open>F\<close>,
  \<^verbatim>\<open>process\<close> of both variants leaves the buffer at its length and leaves every element at
  an index \<open>\<ge> F\<close> as it was: only the positions \<open>[0, F)\<close> can change.
\<close>

theorem process_touches_only_the_frames:
  assumes "emnr_ready ectx" and "anr_ready actx"
    and "0 \<le> frameCount" and "frameCount \<le> int (length inOut)"
  shows "(\<exists>ctx' out. wdsp_emnr_process xemnr f2d d2f ectx inOut frameCount = Some (Inr (ctx', out))
            \<and> length out = length inOut
            \<and> drop (nat frameCount) out = drop (nat frameCount) inOut) \<and>
         (\<exists>ctx' out. wdsp_anr_process xanr f2d d2f actx inOut frameCount = Some (Inr (ctx', out))
            \<and> length out = length inOut
            \<and> drop (nat frameCount) out = drop (nat frameCount) inOut)"
proof -
  have e: "0 < WDSP_EMNR.bufSize ectx" using assms(1) by (simp add: emnr_ready_def)
  have a: "0 < WDSP_ANR.bufSize actx" using assms(2) by (simp add: anr_ready_def)
  obtain c1 o1 where r1: "emnr_loop xemnr f2d d2f ectx inOut frameCount 0 = Some (Inr (c1, o1))"
    using emnr_loop_returns[OF e assms(4), of xemnr f2d d2f 0] by blast
  obtain c2 o2 where r2: "anr_loop xanr f2d d2f actx inOut frameCount 0 = Some (Inr (c2, o2))"
    using anr_loop_returns[OF a assms(4), of xanr f2d d2f 0] by blast
  have f1: "unchanged_outside inOut o1 0 frameCount" using emnr_loop_frame[OF r1 e] by simp
  have f2: "unchanged_outside inOut o2 0 frameCount" using anr_loop_frame[OF r2 a] by simp
  have "length o1 = length inOut" "length o2 = length inOut"
    using f1 f2 by (simp_all add: unchanged_outside_def)
  then show ?thesis
    unfolding wdsp_emnr_process_def wdsp_anr_process_def
    using r1 r2 unchanged_outside_drop[OF f1] unchanged_outside_drop[OF f2] by simp
qed

theorem process_touches_only_the_frames_witness:
  "emnr_ready \<lparr>WDSP_EMNR.self = 0, WDSP_EMNR.impl = (), WDSP_EMNR.workBuf_p = 1,
               WDSP_EMNR.workBuf = replicate 960 (0::int), WDSP_EMNR.bufSize = 480\<rparr> \<and>
   anr_ready \<lparr>WDSP_ANR.self = 2, WDSP_ANR.impl = (), WDSP_ANR.workBuf_p = 3,
              WDSP_ANR.workBuf = replicate 960 (0::int), WDSP_ANR.bufSize = 480\<rparr> \<and>
   (0::int) \<le> 3 \<and> (3::int) \<le> int (length [5, 6, 7, 8 :: nat]) \<and>
   (\<exists>ctx' out. wdsp_emnr_process (\<lambda>e wb. (e, map (\<lambda>v. v + 1) wb)) int nat
        \<lparr>WDSP_EMNR.self = 0, WDSP_EMNR.impl = (), WDSP_EMNR.workBuf_p = 1,
         WDSP_EMNR.workBuf = replicate 960 (0::int), WDSP_EMNR.bufSize = 480\<rparr>
        [5, 6, 7, 8] 3 = Some (Inr (ctx', out))
      \<and> length out = 4 \<and> drop 3 out = [8]) \<and>
   (\<exists>ctx' out. wdsp_anr_process (\<lambda>e wb. (e, map (\<lambda>v. v + 1) wb)) int nat
        \<lparr>WDSP_ANR.self = 2, WDSP_ANR.impl = (), WDSP_ANR.workBuf_p = 3,
         WDSP_ANR.workBuf = replicate 960 (0::int), WDSP_ANR.bufSize = 480\<rparr>
        [5, 6, 7, 8] 3 = Some (Inr (ctx', out))
      \<and> length out = 4 \<and> drop 3 out = [8])"
proof -
  have e: "emnr_ready \<lparr>WDSP_EMNR.self = 0, WDSP_EMNR.impl = (), WDSP_EMNR.workBuf_p = 1,
               WDSP_EMNR.workBuf = replicate 960 (0::int), WDSP_EMNR.bufSize = 480\<rparr>"
    by (simp add: emnr_ready_def)
  have a: "anr_ready \<lparr>WDSP_ANR.self = 2, WDSP_ANR.impl = (), WDSP_ANR.workBuf_p = 3,
              WDSP_ANR.workBuf = replicate 960 (0::int), WDSP_ANR.bufSize = 480\<rparr>"
    by (simp add: anr_ready_def)
  have n: "(0::int) \<le> 3" "(3::int) \<le> int (length [5, 6, 7, 8 :: nat])" by simp_all
  have s: "length [5, 6, 7, 8 :: nat] = 4" "nat 3 = 3" "drop 3 [5, 6, 7, 8 :: nat] = [8]"
    by simp_all
  show ?thesis
    using e a n
      process_touches_only_the_frames[OF e a n, of "\<lambda>e wb. (e, map (\<lambda>v. v + 1) wb)" int nat
        "\<lambda>e wb. (e, map (\<lambda>v. v + 1) wb)", unfolded s]
    by blast
qed

text \<open>
  C4. At every engine invocation \<^verbatim>\<open>process\<close> makes (both variants), every imaginary slot
  \<open>2 * i + 1\<close>, \<open>i < 480\<close>, of the scratch array is zero on entry to the engine, whatever the
  chunk length, the caller's samples and the contents the engine left behind before.
\<close>

theorem imaginary_slots_zero_at_every_invocation:
  assumes "emnr_ready ectx" and "anr_ready actx"
    and "in_place xemnr" and "in_place xanr"
    and "0 \<le> frameCount" and "frameCount \<le> int (length inOut)"
    and "WDSP_EMNR.impl ectx = (e1, h1)" and "WDSP_ANR.impl actx = (e2, h2)"
  shows "(\<exists>ctx' out e' new.
            wdsp_emnr_process (recording xemnr) f2d d2f ectx inOut frameCount
              = Some (Inr (ctx', out))
            \<and> WDSP_EMNR.impl ctx' = (e', h1 @ new)
            \<and> (\<forall>call \<in> set new. \<forall>i<480. fst call ! (2 * i + 1) = 0)) \<and>
         (\<exists>ctx' out e' new.
            wdsp_anr_process (recording xanr) f2d d2f actx inOut frameCount
              = Some (Inr (ctx', out))
            \<and> WDSP_ANR.impl ctx' = (e', h2 @ new)
            \<and> (\<forall>call \<in> set new. \<forall>i<480. fst call ! (2 * i + 1) = 0))"
proof -
  have e: "0 < WDSP_EMNR.bufSize ectx" "WDSP_EMNR.bufSize ectx = 480"
    "length (WDSP_EMNR.workBuf ectx) = nat (2 * 480)"
    using assms(1) by (simp_all add: emnr_ready_def)
  have a: "0 < WDSP_ANR.bufSize actx" "WDSP_ANR.bufSize actx = 480"
    "length (WDSP_ANR.workBuf actx) = nat (2 * 480)"
    using assms(2) by (simp_all add: anr_ready_def)
  obtain c1 o1 where r1:
    "emnr_loop (recording xemnr) f2d d2f ectx inOut frameCount 0 = Some (Inr (c1, o1))"
    using emnr_loop_returns[OF e(1) assms(6), of "recording xemnr" f2d d2f 0] by blast
  obtain c2 o2 where r2:
    "anr_loop (recording xanr) f2d d2f actx inOut frameCount 0 = Some (Inr (c2, o2))"
    using anr_loop_returns[OF a(1) assms(6), of "recording xanr" f2d d2f 0] by blast
  obtain e1' n1 where n1: "WDSP_EMNR.impl c1 = (e1', h1 @ n1)"
    using emnr_loop_count[OF r1 e(1) assms(7)] by auto
  obtain e2' n2 where n2: "WDSP_ANR.impl c2 = (e2', h2 @ n2)"
    using anr_loop_count[OF r2 a(1) assms(8)] by auto
  have z1: "fst call ! (2 * i + 1) = 0" if cin: "call \<in> set n1" and ilt: "i < 480" for call i
  proof -
    obtain k where k: "k < length n1" "n1 ! k = call"
      using cin by (auto simp: in_set_conv_nth)
    have h: "holds_chunk f2d 480 inOut (0 + int k * 480)
        (min 480 (frameCount - (0 + int k * 480))) (fst (n1 ! k))"
      using emnr_loop_blocks[OF r1 assms(3) _ e(2,3) _ assms(6,7) n1 k(1)] by simp
    have "fst (n1 ! k) ! (2 * i + 1) = 0"
      using ilt by (intro holds_chunk_imag[OF h]) simp
    then show ?thesis using k(2) by simp
  qed
  have z2: "fst call ! (2 * i + 1) = 0" if cin: "call \<in> set n2" and ilt: "i < 480" for call i
  proof -
    obtain k where k: "k < length n2" "n2 ! k = call"
      using cin by (auto simp: in_set_conv_nth)
    have h: "holds_chunk f2d 480 inOut (0 + int k * 480)
        (min 480 (frameCount - (0 + int k * 480))) (fst (n2 ! k))"
      using anr_loop_blocks[OF r2 assms(4) _ a(2,3) _ assms(6,8) n2 k(1)] by simp
    have "fst (n2 ! k) ! (2 * i + 1) = 0"
      using ilt by (intro holds_chunk_imag[OF h]) simp
    then show ?thesis using k(2) by simp
  qed
  have "\<exists>ctx' out e' new.
          emnr_loop (recording xemnr) f2d d2f ectx inOut frameCount 0 = Some (Inr (ctx', out))
          \<and> WDSP_EMNR.impl ctx' = (e', h1 @ new)
          \<and> (\<forall>call \<in> set new. \<forall>i<480. fst call ! (2 * i + 1) = 0)"
    using r1 n1 z1 by (intro exI[of _ c1] exI[of _ o1] exI[of _ e1'] exI[of _ n1]) blast
  moreover have "\<exists>ctx' out e' new.
          anr_loop (recording xanr) f2d d2f actx inOut frameCount 0 = Some (Inr (ctx', out))
          \<and> WDSP_ANR.impl ctx' = (e', h2 @ new)
          \<and> (\<forall>call \<in> set new. \<forall>i<480. fst call ! (2 * i + 1) = 0)"
    using r2 n2 z2 by (intro exI[of _ c2] exI[of _ o2] exI[of _ e2'] exI[of _ n2]) blast
  ultimately show ?thesis
    unfolding wdsp_emnr_process_def wdsp_anr_process_def by (rule conjI)
qed

theorem imaginary_slots_zero_at_every_invocation_witness:
  "emnr_ready \<lparr>WDSP_EMNR.self = 0, WDSP_EMNR.impl = ((), []), WDSP_EMNR.workBuf_p = 1,
               WDSP_EMNR.workBuf = replicate 960 (0::int), WDSP_EMNR.bufSize = 480\<rparr> \<and>
   anr_ready \<lparr>WDSP_ANR.self = 2, WDSP_ANR.impl = ((), []), WDSP_ANR.workBuf_p = 3,
              WDSP_ANR.workBuf = replicate 960 (0::int), WDSP_ANR.bufSize = 480\<rparr> \<and>
   in_place (\<lambda>(e::unit) (wb::int list). (e, wb)) \<and>
   (0::int) \<le> 3 \<and> (3::int) \<le> int (length [5, 6, 7 :: nat]) \<and>
   (\<exists>ctx' out e' new.
      wdsp_emnr_process (recording (\<lambda>e wb. (e, wb))) int nat
        \<lparr>WDSP_EMNR.self = 0, WDSP_EMNR.impl = ((), []), WDSP_EMNR.workBuf_p = 1,
         WDSP_EMNR.workBuf = replicate 960 (0::int), WDSP_EMNR.bufSize = 480\<rparr>
        [5, 6, 7] 3 = Some (Inr (ctx', out))
      \<and> WDSP_EMNR.impl ctx' = (e', [] @ new)
      \<and> (\<forall>call \<in> set new. \<forall>i<480. fst call ! (2 * i + 1) = 0)) \<and>
   (\<exists>ctx' out e' new.
      wdsp_anr_process (recording (\<lambda>e wb. (e, wb))) int nat
        \<lparr>WDSP_ANR.self = 2, WDSP_ANR.impl = ((), []), WDSP_ANR.workBuf_p = 3,
         WDSP_ANR.workBuf = replicate 960 (0::int), WDSP_ANR.bufSize = 480\<rparr>
        [5, 6, 7] 3 = Some (Inr (ctx', out))
      \<and> WDSP_ANR.impl ctx' = (e', [] @ new)
      \<and> (\<forall>call \<in> set new. \<forall>i<480. fst call ! (2 * i + 1) = 0))"
proof -
  have e: "emnr_ready \<lparr>WDSP_EMNR.self = 0, WDSP_EMNR.impl = ((), []), WDSP_EMNR.workBuf_p = 1,
               WDSP_EMNR.workBuf = replicate 960 (0::int), WDSP_EMNR.bufSize = 480\<rparr>"
    by (simp add: emnr_ready_def)
  have a: "anr_ready \<lparr>WDSP_ANR.self = 2, WDSP_ANR.impl = ((), []), WDSP_ANR.workBuf_p = 3,
              WDSP_ANR.workBuf = replicate 960 (0::int), WDSP_ANR.bufSize = 480\<rparr>"
    by (simp add: anr_ready_def)
  have p: "in_place (\<lambda>(e::unit) (wb::int list). (e, wb))" by (simp add: in_place_def)
  have n: "(0::int) \<le> 3" "(3::int) \<le> int (length [5, 6, 7 :: nat])" by simp_all
  have i1: "WDSP_EMNR.impl \<lparr>WDSP_EMNR.self = 0, WDSP_EMNR.impl = ((), []),
      WDSP_EMNR.workBuf_p = 1, WDSP_EMNR.workBuf = replicate 960 (0::int),
      WDSP_EMNR.bufSize = 480\<rparr> = ((), [])" by simp
  have i2: "WDSP_ANR.impl \<lparr>WDSP_ANR.self = 2, WDSP_ANR.impl = ((), []),
      WDSP_ANR.workBuf_p = 3, WDSP_ANR.workBuf = replicate 960 (0::int),
      WDSP_ANR.bufSize = 480\<rparr> = ((), [])" by simp
  show ?thesis
    using e a p n
      imaginary_slots_zero_at_every_invocation[OF e a p p n i1 i2, of int nat]
    by blast
qed

text \<open>
  C5. The sample-rate argument of \<^verbatim>\<open>wdsp_anr_create\<close> flows to nothing: for any two rates
  (zero included), any engine constructor and any state of the allocator, the two calls return
  the same result (the same handle or the same failure, and the same environment), and every
  session of \<^verbatim>\<open>process\<close> calls on the instances they produce gives the same outputs.
  (\<open>emnr_create_uses_sample_rate\<close> above is the contrast: the spectral variant hands its rate
  to the engine.)
\<close>

theorem anr_create_ignores_sample_rate:
  "wdsp_anr_create create_anr r1 w = wdsp_anr_create create_anr r2 w \<and>
   anr_session create_anr xanr f2d d2f r1 w calls
     = anr_session create_anr xanr f2d d2f r2 w calls"
  by (simp add: anr_session_def wdsp_anr_create_def)

text \<open>
  C6. For every handle in the state the constructors produce (block size 480) and every
  frame count, \<^verbatim>\<open>process\<close> of both variants ends: each turn of the chunk loop moves the
  offset forward by a chunk of at least one sample, so the call returns for any buffer and
  any count, and whenever the caller's buffer holds at least \<open>frameCount\<close> samples it returns
  normally, with no error.
\<close>

theorem process_is_total:
  assumes "emnr_ready ectx" and "anr_ready actx"
  shows "(\<exists>r. wdsp_emnr_process xemnr f2d d2f ectx inOut frameCount = Some r) \<and>
         (\<exists>r. wdsp_anr_process xanr f2d d2f actx inOut frameCount = Some r) \<and>
         (frameCount \<le> int (length inOut) \<longrightarrow>
            (\<exists>ctx' out. wdsp_emnr_process xemnr f2d d2f ectx inOut frameCount
                          = Some (Inr (ctx', out))) \<and>
            (\<exists>ctx' out. wdsp_anr_process xanr f2d d2f actx inOut frameCount
                          = Some (Inr (ctx', out))))"
proof -
  have e: "0 < WDSP_EMNR.bufSize ectx" using assms(1) by (simp add: emnr_ready_def)
  have a: "0 < WDSP_ANR.bufSize actx" using assms(2) by (simp add: anr_ready_def)
  show ?thesis
    unfolding wdsp_emnr_process_def wdsp_anr_process_def
    using emnr_loop_terminates[OF e, of xemnr f2d d2f inOut frameCount 0]
      anr_loop_terminates[OF a, of xanr f2d d2f inOut frameCount 0]
      emnr_loop_returns[OF e, of frameCount inOut xemnr f2d d2f 0]
      anr_loop_returns[OF a, of frameCount inOut xanr f2d d2f 0] by blast
qed

theorem process_is_total_witness:
  "emnr_ready \<lparr>WDSP_EMNR.self = 0, WDSP_EMNR.impl = (), WDSP_EMNR.workBuf_p = 1,
               WDSP_EMNR.workBuf = replicate 960 (0::int), WDSP_EMNR.bufSize = 480\<rparr> \<and>
   anr_ready \<lparr>WDSP_ANR.self = 2, WDSP_ANR.impl = (), WDSP_ANR.workBuf_p = 3,
              WDSP_ANR.workBuf = replicate 960 (0::int), WDSP_ANR.bufSize = 480\<rparr> \<and>
   (3::int) \<le> int (length [5, 6, 7 :: nat]) \<and>
   (\<exists>ctx' out. wdsp_emnr_process (\<lambda>e wb. (e, wb)) int nat
        \<lparr>WDSP_EMNR.self = 0, WDSP_EMNR.impl = (), WDSP_EMNR.workBuf_p = 1,
         WDSP_EMNR.workBuf = replicate 960 (0::int), WDSP_EMNR.bufSize = 480\<rparr>
        [5, 6, 7] 3 = Some (Inr (ctx', out))) \<and>
   (\<exists>ctx' out. wdsp_anr_process (\<lambda>e wb. (e, wb)) int nat
        \<lparr>WDSP_ANR.self = 2, WDSP_ANR.impl = (), WDSP_ANR.workBuf_p = 3,
         WDSP_ANR.workBuf = replicate 960 (0::int), WDSP_ANR.bufSize = 480\<rparr>
        [5, 6, 7] 3 = Some (Inr (ctx', out)))"
proof -
  have e: "emnr_ready \<lparr>WDSP_EMNR.self = 0, WDSP_EMNR.impl = (), WDSP_EMNR.workBuf_p = 1,
               WDSP_EMNR.workBuf = replicate 960 (0::int), WDSP_EMNR.bufSize = 480\<rparr>"
    by (simp add: emnr_ready_def)
  have a: "anr_ready \<lparr>WDSP_ANR.self = 2, WDSP_ANR.impl = (), WDSP_ANR.workBuf_p = 3,
              WDSP_ANR.workBuf = replicate 960 (0::int), WDSP_ANR.bufSize = 480\<rparr>"
    by (simp add: anr_ready_def)
  have n: "(3::int) \<le> int (length [5, 6, 7 :: nat])" by simp
  show ?thesis
    using e a n
      process_is_total[OF e a, of "\<lambda>e wb. (e, wb)" int nat "[5, 6, 7]" 3 "\<lambda>e wb. (e, wb)"]
    by blast
qed

text \<open>
  C7. In a heap where the allocator's next addresses are unused, \<^verbatim>\<open>wdsp_emnr_create\<close> and
  \<^verbatim>\<open>wdsp_anr_create\<close> return no handle exactly when the allocation of the handle, the
  allocation of the scratch array or the engine's constructor fails; whenever they return no
  handle the allocated blocks are those from before the call (what the call had allocated by
  then is freed again); and a handle they return owns two distinct new blocks (the struct and
  the 960 doubles of the zeroed scratch array), has block size 480, and holds the engine the
  constructor returned for the fixed parameters and that scratch array.
\<close>

theorem create_fails_exactly_on_three_paths_and_unwinds:
  assumes "heap_ok w"
  shows
   "((fst (wdsp_emnr_create create_emnr sampleRate w) = None \<longleftrightarrow>
       fst (calloc 1 w) = None \<or> fst (calloc 960 (snd (calloc 1 w))) = None \<or>
       fst (create_emnr 1 0 480 (Suc (fresh w)) (Suc (fresh w)) 1920 4 sampleRate 0 1.0 2 0 1
              (engines w)) = None) \<and>
    (fst (wdsp_emnr_create create_emnr sampleRate w) = None \<longrightarrow>
       blocks (snd (wdsp_emnr_create create_emnr sampleRate w)) = blocks w) \<and>
    (\<forall>c. fst (wdsp_emnr_create create_emnr sampleRate w) = Some c \<longrightarrow>
       blocks (snd (wdsp_emnr_create create_emnr sampleRate w))
         = (blocks w)(WDSP_EMNR.self c \<mapsto> 1, WDSP_EMNR.workBuf_p c \<mapsto> 960) \<and>
       WDSP_EMNR.self c \<notin> dom (blocks w) \<and> WDSP_EMNR.workBuf_p c \<notin> dom (blocks w) \<and>
       WDSP_EMNR.self c \<noteq> WDSP_EMNR.workBuf_p c \<and>
       WDSP_EMNR.bufSize c = 480 \<and> WDSP_EMNR.workBuf c = replicate 960 0 \<and>
       fst (create_emnr 1 0 480 (WDSP_EMNR.workBuf_p c) (WDSP_EMNR.workBuf_p c) 1920 4 sampleRate
              0 1.0 2 0 1 (engines w)) = Some (WDSP_EMNR.impl c))) \<and>
    ((fst (wdsp_anr_create create_anr sampleRate w) = None \<longleftrightarrow>
       fst (calloc 1 w) = None \<or> fst (calloc 960 (snd (calloc 1 w))) = None \<or>
       fst (create_anr 1 0 480 (Suc (fresh w)) (Suc (fresh w)) 2048 64 16
              0.0001 0.1 120.0 120.0 200.0 0.001 (6.25 / 10 ^ 10) 1.0 3.0
              (engines w)) = None) \<and>
    (fst (wdsp_anr_create create_anr sampleRate w) = None \<longrightarrow>
       blocks (snd (wdsp_anr_create create_anr sampleRate w)) = blocks w) \<and>
    (\<forall>c. fst (wdsp_anr_create create_anr sampleRate w) = Some c \<longrightarrow>
       blocks (snd (wdsp_anr_create create_anr sampleRate w))
         = (blocks w)(WDSP_ANR.self c \<mapsto> 1, WDSP_ANR.workBuf_p c \<mapsto> 960) \<and>
       WDSP_ANR.self c \<notin> dom (blocks w) \<and> WDSP_ANR.workBuf_p c \<notin> dom (blocks w) \<and>
       WDSP_ANR.self c \<noteq> WDSP_ANR.workBuf_p c \<and>
       WDSP_ANR.bufSize c = 480 \<and> WDSP_ANR.workBuf c = replicate 960 0 \<and>
       fst (create_anr 1 0 480 (WDSP_ANR.workBuf_p c) (WDSP_ANR.workBuf_p c) 2048 64 16
              0.0001 0.1 120.0 120.0 200.0 0.001 (6.25 / 10 ^ 10) 1.0 3.0
              (engines w)) = Some (WDSP_ANR.impl c)))"
proof -
  show ?thesis
    by (rule conjI[OF emnr_create_spec[OF assms] anr_create_spec[OF assms]])
qed

theorem create_fails_exactly_on_three_paths_and_unwinds_witness:
  "heap_ok \<lparr>blocks = [0 \<mapsto> 7], fresh = 1, refusals = [False, True], engines = ()\<rparr> \<and>
   fst (wdsp_emnr_create (\<lambda>_ _ _ _ _ _ _ rate _ _ _ _ _ ew. (Some rate, ew)) 48000
          \<lparr>blocks = [0 \<mapsto> 7], fresh = 1, refusals = [False, True], engines = ()\<rparr>
        :: (int, int) WDSP_EMNR option \<times> unit world) = None \<and>
   blocks (snd (wdsp_emnr_create (\<lambda>_ _ _ _ _ _ _ rate _ _ _ _ _ ew. (Some rate, ew)) 48000
          \<lparr>blocks = [0 \<mapsto> 7], fresh = 1, refusals = [False, True], engines = ()\<rparr>
        :: (int, int) WDSP_EMNR option \<times> unit world)) = [0 \<mapsto> 7] \<and>
   fst (wdsp_anr_create (\<lambda>_ _ _ _ _ _ _ _ _ _ _ _ _ _ _ _ _ ew. (Some (), ew)) 48000
          \<lparr>blocks = [0 \<mapsto> 7], fresh = 1, refusals = [False, True], engines = ()\<rparr>
        :: (unit, int) WDSP_ANR option \<times> unit world) = None \<and>
   blocks (snd (wdsp_anr_create (\<lambda>_ _ _ _ _ _ _ _ _ _ _ _ _ _ _ _ _ ew. (Some (), ew)) 48000
          \<lparr>blocks = [0 \<mapsto> 7], fresh = 1, refusals = [False, True], engines = ()\<rparr>
        :: (unit, int) WDSP_ANR option \<times> unit world)) = [0 \<mapsto> 7]"
proof -
  let ?w = "\<lparr>blocks = [0 \<mapsto> 7], fresh = 1, refusals = [False, True], engines = ()\<rparr>"
  have h: "heap_ok ?w" by (simp add: heap_ok_def)
  have b: "fst (calloc 960 (snd (calloc 1 ?w))) = None" by (simp add: calloc_def)
  have s: "blocks ?w = [0 \<mapsto> 7]" by simp
  note t = create_fails_exactly_on_three_paths_and_unwinds[OF h,
      of "\<lambda>_ _ _ _ _ _ _ rate _ _ _ _ _ ew. (Some rate, ew)" 48000
         "\<lambda>_ _ _ _ _ _ _ _ _ _ _ _ _ _ _ _ _ ew. (Some (), ew)", unfolded s]
  show ?thesis using h b t by blast
qed

text \<open>
  C8. Two instances of the same variant, constructed independently (in any two states of the
  allocator and of the engine library, hence at different addresses) with the same sample
  rate, by an engine constructor that is deterministic (the engine state it returns is fixed
  by its numeric arguments, whatever the buffer addresses and the state of the engine
  library), leave the same outputs in the caller's buffers over every sequence of
  \<^verbatim>\<open>process\<close> calls. The block operation is a function of the engine state and the array
  throughout (\<^verbatim>\<open>xemnr\<close> and \<^verbatim>\<open>xanr\<close> are functions); the determinism that has to be assumed on
  top of it is the constructor's.
\<close>

theorem independent_instances_of_a_deterministic_engine_agree:
  assumes "emnr_constructor_deterministic create_emnr"
    and "anr_constructor_deterministic create_anr"
    and "wdsp_emnr_create create_emnr sampleRate w1 = (Some c1, w1')"
    and "wdsp_emnr_create create_emnr sampleRate w2 = (Some c2, w2')"
    and "wdsp_anr_create create_anr sampleRate w3 = (Some c3, w3')"
    and "wdsp_anr_create create_anr sampleRate w4 = (Some c4, w4')"
  shows "emnr_run xemnr f2d d2f c1 calls = emnr_run xemnr f2d d2f c2 calls \<and>
         anr_run xanr f2d d2f c3 calls = anr_run xanr f2d d2f c4 calls"
proof -
  have e: "WDSP_EMNR.impl c1 = WDSP_EMNR.impl c2"
    by (rule assms(1)[unfolded emnr_constructor_deterministic_def, rule_format,
          OF emnr_created_engine[OF assms(3)] emnr_created_engine[OF assms(4)]])
  have a: "WDSP_ANR.impl c3 = WDSP_ANR.impl c4"
    by (rule assms(2)[unfolded anr_constructor_deterministic_def, rule_format,
          OF anr_created_engine[OF assms(5)] anr_created_engine[OF assms(6)]])
  show ?thesis
    by (rule conjI[OF emnr_instances_with_equal_engines_agree[OF assms(3,4) e]
          anr_instances_with_equal_engines_agree[OF assms(5,6) a]])
qed

theorem independent_instances_of_a_deterministic_engine_agree_witness:
  "emnr_constructor_deterministic
      (\<lambda>_ _ _ _ _ _ _ rate _ _ _ _ _ (ew::unit). (Some (rate::int), ew)) \<and>
   anr_constructor_deterministic
      (\<lambda>_ _ _ _ _ _ n_taps _ _ _ _ _ _ _ _ _ _ (ew::unit). (Some (nat n_taps), ew)) \<and>
   wdsp_emnr_create (\<lambda>_ _ _ _ _ _ _ rate _ _ _ _ _ ew. (Some rate, ew)) 48000
      \<lparr>blocks = Map.empty, fresh = 0, refusals = [], engines = ()\<rparr>
    = (Some \<lparr>WDSP_EMNR.self = 0, WDSP_EMNR.impl = 48000, WDSP_EMNR.workBuf_p = 1,
             WDSP_EMNR.workBuf = replicate 960 (0::int), WDSP_EMNR.bufSize = 480\<rparr>,
       \<lparr>blocks = [0 \<mapsto> 1, 1 \<mapsto> 960], fresh = 2, refusals = [], engines = ()\<rparr>) \<and>
   wdsp_emnr_create (\<lambda>_ _ _ _ _ _ _ rate _ _ _ _ _ ew. (Some rate, ew)) 48000
      \<lparr>blocks = [3 \<mapsto> 5], fresh = 7, refusals = [False], engines = ()\<rparr>
    = (Some \<lparr>WDSP_EMNR.self = 7, WDSP_EMNR.impl = 48000, WDSP_EMNR.workBuf_p = 8,
             WDSP_EMNR.workBuf = replicate 960 (0::int), WDSP_EMNR.bufSize = 480\<rparr>,
       \<lparr>blocks = [3 \<mapsto> 5, 7 \<mapsto> 1, 8 \<mapsto> 960], fresh = 9, refusals = [], engines = ()\<rparr>) \<and>
   wdsp_anr_create (\<lambda>_ _ _ _ _ _ n_taps _ _ _ _ _ _ _ _ _ _ ew. (Some (nat n_taps), ew)) 48000
      \<lparr>blocks = Map.empty, fresh = 0, refusals = [], engines = ()\<rparr>
    = (Some \<lparr>WDSP_ANR.self = 0, WDSP_ANR.impl = 64, WDSP_ANR.workBuf_p = 1,
             WDSP_ANR.workBuf = replicate 960 (0::int), WDSP_ANR.bufSize = 480\<rparr>,
       \<lparr>blocks = [0 \<mapsto> 1, 1 \<mapsto> 960], fresh = 2, refusals = [], engines = ()\<rparr>) \<and>
   wdsp_anr_create (\<lambda>_ _ _ _ _ _ n_taps _ _ _ _ _ _ _ _ _ _ ew. (Some (nat n_taps), ew)) 48000
      \<lparr>blocks = [3 \<mapsto> 5], fresh = 7, refusals = [False], engines = ()\<rparr>
    = (Some \<lparr>WDSP_ANR.self = 7, WDSP_ANR.impl = 64, WDSP_ANR.workBuf_p = 8,
             WDSP_ANR.workBuf = replicate 960 (0::int), WDSP_ANR.bufSize = 480\<rparr>,
       \<lparr>blocks = [3 \<mapsto> 5, 7 \<mapsto> 1, 8 \<mapsto> 960], fresh = 9, refusals = [], engines = ()\<rparr>) \<and>
   emnr_run (\<lambda>e wb. (e + 1, map (\<lambda>v. v * e) wb)) int nat
      \<lparr>WDSP_EMNR.self = 0, WDSP_EMNR.impl = 48000, WDSP_EMNR.workBuf_p = 1,
       WDSP_EMNR.workBuf = replicate 960 (0::int), WDSP_EMNR.bufSize = 480\<rparr>
      [([1, 2, 3], 3), ([4, 5], 2)]
    = emnr_run (\<lambda>e wb. (e + 1, map (\<lambda>v. v * e) wb)) int nat
      \<lparr>WDSP_EMNR.self = 7, WDSP_EMNR.impl = 48000, WDSP_EMNR.workBuf_p = 8,
       WDSP_EMNR.workBuf = replicate 960 (0::int), WDSP_EMNR.bufSize = 480\<rparr>
      [([1, 2, 3], 3), ([4, 5], 2)] \<and>
   anr_run (\<lambda>e wb. (Suc e, map (\<lambda>v. v + int e) wb)) int nat
      \<lparr>WDSP_ANR.self = 0, WDSP_ANR.impl = 64, WDSP_ANR.workBuf_p = 1,
       WDSP_ANR.workBuf = replicate 960 (0::int), WDSP_ANR.bufSize = 480\<rparr>
      [([1, 2, 3], 3), ([4, 5], 2)]
    = anr_run (\<lambda>e wb. (Suc e, map (\<lambda>v. v + int e) wb)) int nat
      \<lparr>WDSP_ANR.self = 7, WDSP_ANR.impl = 64, WDSP_ANR.workBuf_p = 8,
       WDSP_ANR.workBuf = replicate 960 (0::int), WDSP_ANR.bufSize = 480\<rparr>
      [([1, 2, 3], 3), ([4, 5], 2)]"
proof -
  have d1: "emnr_constructor_deterministic
      (\<lambda>_ _ _ _ _ _ _ rate _ _ _ _ _ (ew::unit). (Some (rate::int), ew))"
    by (simp add: emnr_constructor_deterministic_def)
  have d2: "anr_constructor_deterministic
      (\<lambda>_ _ _ _ _ _ n_taps _ _ _ _ _ _ _ _ _ _ (ew::unit). (Some (nat n_taps), ew))"
    by (simp add: anr_constructor_deterministic_def)
  have c1: "wdsp_emnr_create (\<lambda>_ _ _ _ _ _ _ rate _ _ _ _ _ ew. (Some rate, ew)) 48000
      \<lparr>blocks = Map.empty, fresh = 0, refusals = [], engines = ()\<rparr>
    = (Some \<lparr>WDSP_EMNR.self = 0, WDSP_EMNR.impl = 48000, WDSP_EMNR.workBuf_p = 1,
             WDSP_EMNR.workBuf = replicate 960 (0::int), WDSP_EMNR.bufSize = 480\<rparr>,
       \<lparr>blocks = [0 \<mapsto> 1, 1 \<mapsto> 960], fresh = 2, refusals = [], engines = ()\<rparr>)"
    by (simp add: wdsp_emnr_create_def calloc_def Let_def)
  have c2: "wdsp_emnr_create (\<lambda>_ _ _ _ _ _ _ rate _ _ _ _ _ ew. (Some rate, ew)) 48000
      \<lparr>blocks = [3 \<mapsto> 5], fresh = 7, refusals = [False], engines = ()\<rparr>
    = (Some \<lparr>WDSP_EMNR.self = 7, WDSP_EMNR.impl = 48000, WDSP_EMNR.workBuf_p = 8,
             WDSP_EMNR.workBuf = replicate 960 (0::int), WDSP_EMNR.bufSize = 480\<rparr>,
       \<lparr>blocks = [3 \<mapsto> 5, 7 \<mapsto> 1, 8 \<mapsto> 960], fresh = 9, refusals = [], engines = ()\<rparr>)"
    by (simp add: wdsp_emnr_create_def calloc_def Let_def)
  have c3: "wdsp_anr_create (\<lambda>_ _ _ _ _ _ n_taps _ _ _ _ _ _ _ _ _ _ ew. (Some (nat n_taps), ew)) 48000
      \<lparr>blocks = Map.empty, fresh = 0, refusals = [], engines = ()\<rparr>
    = (Some \<lparr>WDSP_ANR.self = 0, WDSP_ANR.impl = 64, WDSP_ANR.workBuf_p = 1,
             WDSP_ANR.workBuf = replicate 960 (0::int), WDSP_ANR.bufSize = 480\<rparr>,
       \<lparr>blocks = [0 \<mapsto> 1, 1 \<mapsto> 960], fresh = 2, refusals = [], engines = ()\<rparr>)"
    by (simp add: wdsp_anr_create_def calloc_def Let_def)
  have c4: "wdsp_anr_create (\<lambda>_ _ _ _ _ _ n_taps _ _ _ _ _ _ _ _ _ _ ew. (Some (nat n_taps), ew)) 48000
      \<lparr>blocks = [3 \<mapsto> 5], fresh = 7, refusals = [False], engines = ()\<rparr>
    = (Some \<lparr>WDSP_ANR.self = 7, WDSP_ANR.impl = 64, WDSP_ANR.workBuf_p = 8,
             WDSP_ANR.workBuf = replicate 960 (0::int), WDSP_ANR.bufSize = 480\<rparr>,
       \<lparr>blocks = [3 \<mapsto> 5, 7 \<mapsto> 1, 8 \<mapsto> 960], fresh = 9, refusals = [], engines = ()\<rparr>)"
    by (simp add: wdsp_anr_create_def calloc_def Let_def)
  note t = independent_instances_of_a_deterministic_engine_agree[OF d1 d2 c1 c2 c3 c4,
      of "\<lambda>e wb. (e + 1, map (\<lambda>v. v * e) wb)" int nat "[([1, 2, 3], 3), ([4, 5], 2)]"
         "\<lambda>e wb. (Suc e, map (\<lambda>v. v + int e) wb)"]
  show ?thesis using d1 d2 c1 c2 c3 c4 t by simp
qed

text \<open>
  With the block operation a function of the engine state and the array, and nothing assumed
  of the constructor, the two instances can differ. The engine constructor is handed the
  address of the scratch array (\<^verbatim>\<open>create_emnr(1, 0, bsize, workBuf, workBuf, ...)\<close>), and two
  instances have their scratch arrays at different addresses. Here the constructor keeps the
  address as the engine state and the block operation fills the array with it: constructed
  with the same sample rate 48000 in two well-formed states of the allocator, and given the
  same one-sample buffer, the instance with its scratch array at address 1 returns 1 and the
  one with its scratch array at address 8 returns 8, in both variants.
\<close>

theorem instances_at_different_addresses_can_differ:
  "heap_ok \<lparr>blocks = Map.empty, fresh = 0, refusals = [], engines = ()\<rparr> \<and>
   heap_ok \<lparr>blocks = [3 \<mapsto> 5], fresh = 7, refusals = [False], engines = ()\<rparr> \<and>
   in_place (\<lambda>e wb. (e, map (\<lambda>_. int e) wb)) \<and>
   wdsp_emnr_create (\<lambda>_ _ _ inb _ _ _ _ _ _ _ _ _ ew. (Some inb, ew)) 48000
      \<lparr>blocks = Map.empty, fresh = 0, refusals = [], engines = ()\<rparr>
    = (Some \<lparr>WDSP_EMNR.self = 0, WDSP_EMNR.impl = 1, WDSP_EMNR.workBuf_p = 1,
             WDSP_EMNR.workBuf = replicate 960 (0::int), WDSP_EMNR.bufSize = 480\<rparr>,
       \<lparr>blocks = [0 \<mapsto> 1, 1 \<mapsto> 960], fresh = 2, refusals = [], engines = ()\<rparr>) \<and>
   wdsp_emnr_create (\<lambda>_ _ _ inb _ _ _ _ _ _ _ _ _ ew. (Some inb, ew)) 48000
      \<lparr>blocks = [3 \<mapsto> 5], fresh = 7, refusals = [False], engines = ()\<rparr>
    = (Some \<lparr>WDSP_EMNR.self = 7, WDSP_EMNR.impl = 8, WDSP_EMNR.workBuf_p = 8,
             WDSP_EMNR.workBuf = replicate 960 (0::int), WDSP_EMNR.bufSize = 480\<rparr>,
       \<lparr>blocks = [3 \<mapsto> 5, 7 \<mapsto> 1, 8 \<mapsto> 960], fresh = 9, refusals = [], engines = ()\<rparr>) \<and>
   emnr_run (\<lambda>e wb. (e, map (\<lambda>_. int e) wb)) int nat
      \<lparr>WDSP_EMNR.self = 0, WDSP_EMNR.impl = 1, WDSP_EMNR.workBuf_p = 1,
       WDSP_EMNR.workBuf = replicate 960 (0::int), WDSP_EMNR.bufSize = 480\<rparr>
      [([0], 1)]
    = [Some (Inr [1])] \<and>
   emnr_run (\<lambda>e wb. (e, map (\<lambda>_. int e) wb)) int nat
      \<lparr>WDSP_EMNR.self = 7, WDSP_EMNR.impl = 8, WDSP_EMNR.workBuf_p = 8,
       WDSP_EMNR.workBuf = replicate 960 (0::int), WDSP_EMNR.bufSize = 480\<rparr>
      [([0], 1)]
    = [Some (Inr [8])] \<and>
   wdsp_anr_create (\<lambda>_ _ _ inb _ _ _ _ _ _ _ _ _ _ _ _ _ ew. (Some inb, ew)) 48000
      \<lparr>blocks = Map.empty, fresh = 0, refusals = [], engines = ()\<rparr>
    = (Some \<lparr>WDSP_ANR.self = 0, WDSP_ANR.impl = 1, WDSP_ANR.workBuf_p = 1,
             WDSP_ANR.workBuf = replicate 960 (0::int), WDSP_ANR.bufSize = 480\<rparr>,
       \<lparr>blocks = [0 \<mapsto> 1, 1 \<mapsto> 960], fresh = 2, refusals = [], engines = ()\<rparr>) \<and>
   wdsp_anr_create (\<lambda>_ _ _ inb _ _ _ _ _ _ _ _ _ _ _ _ _ ew. (Some inb, ew)) 48000
      \<lparr>blocks = [3 \<mapsto> 5], fresh = 7, refusals = [False], engines = ()\<rparr>
    = (Some \<lparr>WDSP_ANR.self = 7, WDSP_ANR.impl = 8, WDSP_ANR.workBuf_p = 8,
             WDSP_ANR.workBuf = replicate 960 (0::int), WDSP_ANR.bufSize = 480\<rparr>,
       \<lparr>blocks = [3 \<mapsto> 5, 7 \<mapsto> 1, 8 \<mapsto> 960], fresh = 9, refusals = [], engines = ()\<rparr>) \<and>
   anr_run (\<lambda>e wb. (e, map (\<lambda>_. int e) wb)) int nat
      \<lparr>WDSP_ANR.self = 0, WDSP_ANR.impl = 1, WDSP_ANR.workBuf_p = 1,
       WDSP_ANR.workBuf = replicate 960 (0::int), WDSP_ANR.bufSize = 480\<rparr>
      [([0], 1)]
    = [Some (Inr [1])] \<and>
   anr_run (\<lambda>e wb. (e, map (\<lambda>_. int e) wb)) int nat
      \<lparr>WDSP_ANR.self = 7, WDSP_ANR.impl = 8, WDSP_ANR.workBuf_p = 8,
       WDSP_ANR.workBuf = replicate 960 (0::int), WDSP_ANR.bufSize = 480\<rparr>
      [([0], 1)]
    = [Some (Inr [8])]"
proof -
  have run: "emnr_run (\<lambda>e wb. (e, map (\<lambda>_. int e) wb)) int nat ctx [([0], 1)]
      = [Some (Inr [WDSP_EMNR.impl ctx])]"
    if "WDSP_EMNR.bufSize ctx = 480" and "length (WDSP_EMNR.workBuf ctx) = 960"
    for ctx :: "(nat, int) WDSP_EMNR"
  proof -
    have p: "0 < WDSP_EMNR.bufSize ctx" using that(1) by simp
    have "emnr_run (\<lambda>e wb. (e, map (\<lambda>_. int e) wb)) int nat ctx [([0], 1)]
      = [Some (Inr [nat (map (\<lambda>_. int (WDSP_EMNR.impl ctx))
            (zero_pad (WDSP_EMNR.bufSize ctx) 1 (pack_iq int [0] 0 1 0 (WDSP_EMNR.workBuf ctx))) ! 0)])]"
      by (rule emnr_run_one_frame[where x = "\<lambda>e wb. (e, map (\<lambda>_. int e) wb)" and ctx = ctx,
            OF p]) simp
    then show ?thesis using that(2) by simp
  qed
  have h1: "heap_ok \<lparr>blocks = Map.empty, fresh = 0, refusals = [], engines = ()\<rparr>"
    by (simp add: heap_ok_def)
  have h2: "heap_ok \<lparr>blocks = [3 \<mapsto> 5], fresh = 7, refusals = [False], engines = ()\<rparr>"
    by (simp add: heap_ok_def)
  have ip: "in_place (\<lambda>e wb. (e, map (\<lambda>_. int e) wb))"
    by (simp add: in_place_def)
  have c1: "wdsp_emnr_create (\<lambda>_ _ _ inb _ _ _ _ _ _ _ _ _ ew. (Some inb, ew)) 48000
      \<lparr>blocks = Map.empty, fresh = 0, refusals = [], engines = ()\<rparr>
    = (Some \<lparr>WDSP_EMNR.self = 0, WDSP_EMNR.impl = 1, WDSP_EMNR.workBuf_p = 1,
             WDSP_EMNR.workBuf = replicate 960 (0::int), WDSP_EMNR.bufSize = 480\<rparr>,
       \<lparr>blocks = [0 \<mapsto> 1, 1 \<mapsto> 960], fresh = 2, refusals = [], engines = ()\<rparr>)"
    by (simp add: wdsp_emnr_create_def calloc_def Let_def)
  have c2: "wdsp_emnr_create (\<lambda>_ _ _ inb _ _ _ _ _ _ _ _ _ ew. (Some inb, ew)) 48000
      \<lparr>blocks = [3 \<mapsto> 5], fresh = 7, refusals = [False], engines = ()\<rparr>
    = (Some \<lparr>WDSP_EMNR.self = 7, WDSP_EMNR.impl = 8, WDSP_EMNR.workBuf_p = 8,
             WDSP_EMNR.workBuf = replicate 960 (0::int), WDSP_EMNR.bufSize = 480\<rparr>,
       \<lparr>blocks = [3 \<mapsto> 5, 7 \<mapsto> 1, 8 \<mapsto> 960], fresh = 9, refusals = [], engines = ()\<rparr>)"
    by (simp add: wdsp_emnr_create_def calloc_def Let_def)
  have r1: "emnr_run (\<lambda>e wb. (e, map (\<lambda>_. int e) wb)) int nat
      \<lparr>WDSP_EMNR.self = 0, WDSP_EMNR.impl = 1, WDSP_EMNR.workBuf_p = 1,
       WDSP_EMNR.workBuf = replicate 960 (0::int), WDSP_EMNR.bufSize = 480\<rparr>
      [([0], 1)] = [Some (Inr [1])]"
    by (subst run) simp_all
  have r2: "emnr_run (\<lambda>e wb. (e, map (\<lambda>_. int e) wb)) int nat
      \<lparr>WDSP_EMNR.self = 7, WDSP_EMNR.impl = 8, WDSP_EMNR.workBuf_p = 8,
       WDSP_EMNR.workBuf = replicate 960 (0::int), WDSP_EMNR.bufSize = 480\<rparr>
      [([0], 1)] = [Some (Inr [8])]"
    by (subst run) simp_all
  have c3: "wdsp_anr_create (\<lambda>_ _ _ inb _ _ _ _ _ _ _ _ _ _ _ _ _ ew. (Some inb, ew)) 48000
      \<lparr>blocks = Map.empty, fresh = 0, refusals = [], engines = ()\<rparr>
    = (Some \<lparr>WDSP_ANR.self = 0, WDSP_ANR.impl = 1, WDSP_ANR.workBuf_p = 1,
             WDSP_ANR.workBuf = replicate 960 (0::int), WDSP_ANR.bufSize = 480\<rparr>,
       \<lparr>blocks = [0 \<mapsto> 1, 1 \<mapsto> 960], fresh = 2, refusals = [], engines = ()\<rparr>)"
    by (simp add: wdsp_anr_create_def calloc_def Let_def)
  have c4: "wdsp_anr_create (\<lambda>_ _ _ inb _ _ _ _ _ _ _ _ _ _ _ _ _ ew. (Some inb, ew)) 48000
      \<lparr>blocks = [3 \<mapsto> 5], fresh = 7, refusals = [False], engines = ()\<rparr>
    = (Some \<lparr>WDSP_ANR.self = 7, WDSP_ANR.impl = 8, WDSP_ANR.workBuf_p = 8,
             WDSP_ANR.workBuf = replicate 960 (0::int), WDSP_ANR.bufSize = 480\<rparr>,
       \<lparr>blocks = [3 \<mapsto> 5, 7 \<mapsto> 1, 8 \<mapsto> 960], fresh = 9, refusals = [], engines = ()\<rparr>)"
    by (simp add: wdsp_anr_create_def calloc_def Let_def)
  have r3: "anr_run (\<lambda>e wb. (e, map (\<lambda>_. int e) wb)) int nat
      \<lparr>WDSP_ANR.self = 0, WDSP_ANR.impl = 1, WDSP_ANR.workBuf_p = 1,
       WDSP_ANR.workBuf = replicate 960 (0::int), WDSP_ANR.bufSize = 480\<rparr>
      [([0], 1)] = [Some (Inr [1])]"
    by (subst anr_run_emnr, simp, subst run) (simp_all add: as_emnr_def)
  have r4: "anr_run (\<lambda>e wb. (e, map (\<lambda>_. int e) wb)) int nat
      \<lparr>WDSP_ANR.self = 7, WDSP_ANR.impl = 8, WDSP_ANR.workBuf_p = 8,
       WDSP_ANR.workBuf = replicate 960 (0::int), WDSP_ANR.bufSize = 480\<rparr>
      [([0], 1)] = [Some (Inr [8])]"
    by (subst anr_run_emnr, simp, subst run) (simp_all add: as_emnr_def)
  show ?thesis
    by (intro conjI) (rule h1 h2 ip c1 c2 r1 r2 c3 c4 r3 r4)+
qed

text \<open>
  C9. \<^verbatim>\<open>wdsp_emnr_destroy\<close> and \<^verbatim>\<open>wdsp_anr_destroy\<close> on a null handle change nothing: the
  state of the allocator and of the engine library after the call is the state before it,
  whatever the engine's teardown function would do, so the teardown is not invoked and
  nothing is released.
\<close>

theorem destroy_null_is_noop:
  "wdsp_emnr_destroy destroy_emnr None w = w \<and> wdsp_anr_destroy destroy_anr None w = w"
  by (simp add: wdsp_emnr_destroy_def wdsp_anr_destroy_def)

text \<open>
  C10. For every negative frame count, \<^verbatim>\<open>process\<close> of both variants returns at once with
  the handle and the caller's buffer as they were, whatever the handle, the engine and the
  buffer (even an empty one): the engine is not invoked (a recording engine's list of
  invocations, part of the handle, is unchanged) and no index of the buffer is touched
  (the run does not end in \<open>BufferOverrun\<close>).
\<close>

theorem process_negative_count_is_noop:
  "frameCount < 0 \<Longrightarrow>
   wdsp_emnr_process xemnr f2d d2f ectx inOut frameCount = Some (Inr (ectx, inOut)) \<and>
   wdsp_anr_process xanr f2d d2f actx inOut frameCount = Some (Inr (actx, inOut))"
  by (simp add: wdsp_emnr_process_def wdsp_anr_process_def emnr_loop_done anr_loop_done)

theorem process_negative_count_is_noop_witness:
  "(-1::int) < 0 \<and>
   wdsp_emnr_process (recording (\<lambda>(e::nat) wb. (Suc e, map (\<lambda>v::int. v + 1) wb))) int nat
     \<lparr>WDSP_EMNR.self = 0, WDSP_EMNR.impl = (0, []), WDSP_EMNR.workBuf_p = 1,
      WDSP_EMNR.workBuf = replicate 960 0, WDSP_EMNR.bufSize = 480\<rparr> [] (-1)
     = Some (Inr (\<lparr>WDSP_EMNR.self = 0, WDSP_EMNR.impl = (0, []), WDSP_EMNR.workBuf_p = 1,
      WDSP_EMNR.workBuf = replicate 960 0, WDSP_EMNR.bufSize = 480\<rparr>, [])) \<and>
   wdsp_anr_process (recording (\<lambda>(e::nat) wb. (Suc e, map (\<lambda>v::int. v + 1) wb))) int nat
     \<lparr>WDSP_ANR.self = 0, WDSP_ANR.impl = (0, []), WDSP_ANR.workBuf_p = 1,
      WDSP_ANR.workBuf = replicate 960 0, WDSP_ANR.bufSize = 480\<rparr> [] (-1)
     = Some (Inr (\<lparr>WDSP_ANR.self = 0, WDSP_ANR.impl = (0, []), WDSP_ANR.workBuf_p = 1,
      WDSP_ANR.workBuf = replicate 960 0, WDSP_ANR.bufSize = 480\<rparr>, []))"
proof -
  have h: "(-1::int) < 0" by simp
  show ?thesis using h process_negative_count_is_noop[OF h] by blast
qed

end
